theory Spec2Isabelle
  imports Complex_Main "HOL-Library.Sublist" "HOL-Library.Word"
begin

section \<open>Sensor fusion: sample buffer and crash detector (useSensorFusion.ts)\<close>

text \<open>
  A JavaScript number is an IEEE 754 double. The finite doubles are real numbers, so the
  fields of a sensor reading are reals, and every arithmetic operation of the source
  (\<open>*\<close>, \<open>+\<close>, \<open>-\<close>, \<open>Math.sqrt\<close>) is the exact operation followed by
  \<open>round_double\<close>, rounding to the nearest double with ties to the even mantissa.
  \<open>Math.abs\<close>, \<open>Math.max\<close> and the comparisons are exact. A result beyond the
  largest double stays the rounded real instead of becoming \<open>Infinity\<close>, which
  the comparisons against 4.0 and 90 answer alike; the readings
  built by \<open>handleMotionEvent\<close> never hold NaN, since \<open>x || 0\<close> replaces it by 0.
  \<open>Date.now()\<close> yields integer milliseconds, on which the subtraction is exact, and is
  passed in explicitly wherever the source calls it.
\<close>

definition round_half_even :: "real \<Rightarrow> int" where
  "round_half_even r =
     (let f = \<lfloor>r\<rfloor>; d = r - of_int f
      in if d < 1 / 2 then f
         else if 1 / 2 < d then f + 1
         else if even f then f else f + 1)"

text \<open>The exponent of the unit in the last place of a double near \<open>x\<close>: 52 binary
  places below the leading bit, and never below the subnormal spacing \<open>2 powi -1074\<close>.\<close>

definition ulp_exponent :: "real \<Rightarrow> int" where
  "ulp_exponent x = max (\<lfloor>log 2 \<bar>x\<bar>\<rfloor> - 52) (- 1074)"

definition round_double :: "real \<Rightarrow> real" where
  "round_double x =
     (if x = 0 then 0
      else of_int (round_half_even (x / 2 powi ulp_exponent x)) * 2 powi ulp_exponent x)"

record SensorReading =
  timestamp :: int
  accelerationX :: real
  accelerationY :: real
  accelerationZ :: real
  rotationAlpha :: real
  rotationBeta :: real
  rotationGamma :: real

record SensorFusionState =
  isCrashDetected :: bool
  isMonitoring :: bool
  lastReading :: "SensorReading option"

definition BUFFER_SIZE :: nat where
  "BUFFER_SIZE = 100"

definition HIGH_G_THRESHOLD :: real where
  "HIGH_G_THRESHOLD = 4.0"

definition SUSTAINED_DURATION_MS :: int where
  "SUSTAINED_DURATION_MS = 100"

definition ROTATION_THRESHOLD :: real where
  "ROTATION_THRESHOLD = 90"

definition calculateMagnitude :: "real \<Rightarrow> real \<Rightarrow> real \<Rightarrow> real" where
  "calculateMagnitude x y z =
     round_double (sqrt
       (round_double
          (round_double (round_double (x * x) + round_double (y * y))
           + round_double (z * z))))"

definition calculateRotationChange :: "SensorReading list \<Rightarrow> real" where
  "calculateRotationChange readings =
     (if length readings < 2 then 0
      else
        let first = readings ! 0;
            lst = readings ! (length readings - 1);
            alphaChange = \<bar>round_double (rotationAlpha lst - rotationAlpha first)\<bar>;
            betaChange = \<bar>round_double (rotationBeta lst - rotationBeta first)\<bar>;
            gammaChange = \<bar>round_double (rotationGamma lst - rotationGamma first)\<bar>
        in max (max alphaChange betaChange) gammaChange)"

text \<open>The two filters of \<open>analyzeBuffer\<close>; \<open>now\<close> is the value of \<open>Date.now()\<close> read
  inside \<open>analyzeBuffer\<close>.\<close>

definition recentReadings :: "int \<Rightarrow> SensorReading list \<Rightarrow> SensorReading list" where
  "recentReadings now buffer =
     filter (\<lambda>reading. now - timestamp reading \<le> SUSTAINED_DURATION_MS) buffer"

definition highGReadings :: "SensorReading list \<Rightarrow> SensorReading list" where
  "highGReadings recent =
     filter (\<lambda>reading.
        calculateMagnitude (accelerationX reading) (accelerationY reading)
          (accelerationZ reading) > HIGH_G_THRESHOLD) recent"

definition analyzeBuffer :: "int \<Rightarrow> SensorReading list \<Rightarrow> bool" where
  "analyzeBuffer now buffer =
     (if length buffer < 10 then False
      else if length (recentReadings now buffer) < 5 then False
      else if length (highGReadings (recentReadings now buffer)) < 3 then False
      else if calculateRotationChange (recentReadings now buffer) < ROTATION_THRESHOLD
        then False
      else True)"

text \<open>A \<open>DeviceMotionEvent\<close>: \<open>acceleration\<close> and \<open>rotationRate\<close> may be null, and so
  may each of their components.\<close>

record DeviceMotionEvent =
  acceleration :: "(real option \<times> real option \<times> real option) option"
  rotationRate :: "(real option \<times> real option \<times> real option) option"

definition orZero :: "real option \<Rightarrow> real" where
  "orZero v = (case v of None \<Rightarrow> 0 | Some x \<Rightarrow> x)"

record SensorFusion =
  sensorBuffer :: "SensorReading list"
  fusionState :: SensorFusionState

definition pushReading :: "SensorReading \<Rightarrow> SensorReading list \<Rightarrow> SensorReading list" where
  "pushReading reading buffer =
     (let pushed = buffer @ [reading]
      in if length pushed > BUFFER_SIZE then tl pushed else pushed)"

definition mkReading :: "int \<Rightarrow> (real option \<times> real option \<times> real option)
    \<Rightarrow> (real option \<times> real option \<times> real option) \<Rightarrow> SensorReading" where
  "mkReading t acc rot =
     (case acc of (ax, ay, az) \<Rightarrow> case rot of (ra, rb, rg) \<Rightarrow>
        \<lparr>timestamp = t,
         accelerationX = orZero ax, accelerationY = orZero ay, accelerationZ = orZero az,
         rotationAlpha = orZero ra, rotationBeta = orZero rb, rotationGamma = orZero rg\<rparr>)"

text \<open>\<open>handleMotionEvent tPush tAnalyze event s\<close>: \<open>tPush\<close> is \<open>Date.now()\<close> when the
  reading is built, \<open>tAnalyze\<close> is \<open>Date.now()\<close> inside the call of \<open>analyzeBuffer\<close>.\<close>

definition handleMotionEvent ::
    "int \<Rightarrow> int \<Rightarrow> DeviceMotionEvent \<Rightarrow> SensorFusion \<Rightarrow> SensorFusion" where
  "handleMotionEvent tPush tAnalyze event s =
     (case acceleration event of
        None \<Rightarrow> s
      | Some acc \<Rightarrow>
          (case rotationRate event of
             None \<Rightarrow> s
           | Some rot \<Rightarrow>
               let reading = mkReading tPush acc rot;
                   buffer = pushReading reading (sensorBuffer s);
                   st1 = (fusionState s)\<lparr>lastReading := Some reading\<rparr>;
                   st2 = (if analyzeBuffer tAnalyze buffer
                          then st1\<lparr>isCrashDetected := True\<rparr> else st1)
               in \<lparr>sensorBuffer = buffer, fusionState = st2\<rparr>))"

definition stopMonitoring :: "SensorFusion \<Rightarrow> SensorFusion" where
  "stopMonitoring s =
     \<lparr>sensorBuffer = [], fusionState = (fusionState s)\<lparr>isMonitoring := False\<rparr>\<rparr>"

definition resetCrashDetection :: "SensorFusion \<Rightarrow> SensorFusion" where
  "resetCrashDetection s =
     \<lparr>sensorBuffer = [], fusionState = (fusionState s)\<lparr>isCrashDetected := False\<rparr>\<rparr>"

definition initialFusion :: SensorFusion where
  "initialFusion =
     \<lparr>sensorBuffer = [],
      fusionState = \<lparr>isCrashDetected = False, isMonitoring = False, lastReading = None\<rparr>\<rparr>"

datatype sensor_op =
    Motion int int DeviceMotionEvent
  | StopMonitoring
  | ResetCrashDetection

fun applyOp :: "SensorFusion \<Rightarrow> sensor_op \<Rightarrow> SensorFusion" where
  "applyOp s (Motion tPush tAnalyze event) = handleMotionEvent tPush tAnalyze event s"
| "applyOp s StopMonitoring = stopMonitoring s"
| "applyOp s ResetCrashDetection = resetCrashDetection s"

definition runOps :: "sensor_op list \<Rightarrow> SensorFusion \<Rightarrow> SensorFusion" where
  "runOps ops s = foldl applyOp s ops"

text \<open>The window operation as the specification words it: the samples whose timestamp
  is within \<open>d\<close> of the most recent sample's timestamp.\<close>

definition window_spec :: "int \<Rightarrow> SensorReading list \<Rightarrow> SensorReading list" where
  "window_spec d buffer =
     (if buffer = [] then []
      else filter (\<lambda>r. timestamp (last buffer) - timestamp r \<le> d) buffer)"

text \<open>The three gates as the specification words them, on the recent window.\<close>

definition gates_spec :: "int \<Rightarrow> SensorReading list \<Rightarrow> bool" where
  "gates_spec now buffer =
     (length (recentReadings now buffer) \<ge> 5
      \<and> length (highGReadings (recentReadings now buffer)) \<ge> 3
      \<and> calculateRotationChange (recentReadings now buffer) > 90)"

text \<open>A sample with acceleration \<open>(a, 0, 0)\<close> and rotation \<open>(r, 0, 0)\<close> at time \<open>t\<close>.\<close>

definition sample :: "int \<Rightarrow> real \<Rightarrow> real \<Rightarrow> SensorReading" where
  "sample t a r =
     \<lparr>timestamp = t, accelerationX = a, accelerationY = 0, accelerationZ = 0,
      rotationAlpha = r, rotationBeta = 0, rotationGamma = 0\<rparr>"

subsection \<open>Concrete buffers used to evaluate the detector\<close>

text \<open>Scenario A as six motion events injected into a fresh session, 20 ms apart, each
  with acceleration \<open>(5, 0, 0)\<close>; the alpha rotation rises from 0 to 120.\<close>

definition scenarioA_ops :: "sensor_op list" where
  "scenarioA_ops =
     map (\<lambda>k. Motion (20 * int k) (20 * int k)
            \<lparr>acceleration = Some (Some 5, Some 0, None),
             rotationRate = Some (Some (24 * real k), None, Some 0)\<rparr>) [0..<6]"

definition scenarioA_buffer :: "SensorReading list" where
  "scenarioA_buffer = map (\<lambda>k. sample (20 * int k) 5 (24 * real k)) [0..<6]"

text \<open>Four quiet samples taken about a second earlier.\<close>

definition olderSamples :: "SensorReading list" where
  "olderSamples = map (\<lambda>k. sample (int k - 1000) 0 0) [0..<4]"

definition scenarioA_full :: "SensorReading list" where
  "scenarioA_full = olderSamples @ scenarioA_buffer"

text \<open>Ten samples inside the window whose alpha rotation rises from 0 to exactly 90.\<close>

definition rotation90_buffer :: "SensorReading list" where
  "rotation90_buffer = map (\<lambda>k. sample (10 * int k) 5 (10 * real k)) [0..<10]"

text \<open>Scenario B: as scenario A after four older samples, with rotation change 50.\<close>

definition scenarioB_buffer :: "SensorReading list" where
  "scenarioB_buffer =
     olderSamples @ map (\<lambda>k. sample (20 * int k) 5 (10 * real k)) [0..<6]"

text \<open>Ten samples of which only four are inside the window, all four with a very large
  acceleration and a rotation change of 300.\<close>

definition fewInWindow_buffer :: "SensorReading list" where
  "fewInWindow_buffer =
     map (\<lambda>k. sample (int k - 1000) 0 0) [0..<6]
     @ map (\<lambda>k. sample (20 * int k) 1000 (100 * real k)) [0..<4]"

text \<open>Ten samples inside the window, rotation change 180, only two above 4.0 g.\<close>

definition twoHighG_buffer :: "SensorReading list" where
  "twoHighG_buffer =
     map (\<lambda>k. sample (10 * int k) (if k < 2 then 1000 else 1) (20 * real k)) [0..<10]"

definition fullFusion :: SensorFusion where
  "fullFusion =
     \<lparr>sensorBuffer = map (\<lambda>k. sample (int k) 0 0) [0..<100],
      fusionState = \<lparr>isCrashDetected = False, isMonitoring = True, lastReading = None\<rparr>\<rparr>"

text \<open>Ten samples inside the window at 5 g whose alpha rotation goes from
  \<open>1 / 2 ^ 60\<close> to 90: the exact difference is below 90, the computed one is 90.\<close>

definition belowNinety_buffer :: "SensorReading list" where
  "belowNinety_buffer =
     sample 0 5 (1 / 2 ^ 60) # map (\<lambda>k. sample (10 * int k) 5 90) [1..<10]"

text \<open>Ten samples inside the window with rotation change 180 and acceleration
  \<open>(4, 1 / 2 ^ 30, 0)\<close>: the exact magnitude is above 4, the computed one is 4.\<close>

definition barelyAboveFour_buffer :: "SensorReading list" where
  "barelyAboveFour_buffer =
     map (\<lambda>k. \<lparr>timestamp = 10 * int k, accelerationX = 4, accelerationY = 1 / 2 ^ 30,
               accelerationZ = 0, rotationAlpha = 20 * real k, rotationBeta = 0,
               rotationGamma = 0\<rparr>) [0..<10]"

text \<open>Ten samples at 5 g stamped from 0 to 100; the first has rotation 0, the second
  50, the last 120.\<close>

definition tenSamples :: "SensorReading list" where
  "tenSamples =
     [sample 0 5 0, sample 20 5 50, sample 40 5 60, sample 60 5 70, sample 70 5 80,
      sample 80 5 90, sample 85 5 100, sample 90 5 105, sample 95 5 110,
      sample 100 5 120]"

section \<open>Evidence capture and sealing (evidenceCapture.ts, TriggeredState.tsx)\<close>

text \<open>
  Strings are sequences of UTF-8 code units, so \<open>TextEncoder.encode\<close> maps a string to
  its bytes one by one. \<open>JSON.stringify\<close> is modelled on the values a trust packet
  holds (null, numbers, strings, objects with ordered keys), following the serialisation
  algorithm of the language standard with its \<open>gap\<close> and \<open>indent\<close> strings; the
  rendering of a number is the parameter \<open>fmt\<close>.
\<close>

datatype json = JNull | JNumber real | JString string | JObject "(string \<times> json) list"

definition hexDigit :: "nat \<Rightarrow> char" where
  "hexDigit n = (''0123456789abcdef'') ! (n mod 16)"

definition join :: "string \<Rightarrow> string list \<Rightarrow> string" where
  "join sep parts = (case parts of [] \<Rightarrow> [] | p # ps \<Rightarrow> p @ concat (map (\<lambda>q. sep @ q) ps))"

definition quoteChar :: "char \<Rightarrow> string" where
  "quoteChar c =
     (if c = CHR 0x08 then [CHR 0x5C, CHR ''b'']
      else if c = CHR 0x09 then [CHR 0x5C, CHR ''t'']
      else if c = CHR 0x0A then [CHR 0x5C, CHR ''n'']
      else if c = CHR 0x0C then [CHR 0x5C, CHR ''f'']
      else if c = CHR 0x0D then [CHR 0x5C, CHR ''r'']
      else if c = CHR 0x22 then [CHR 0x5C, CHR 0x22]
      else if c = CHR 0x5C then [CHR 0x5C, CHR 0x5C]
      else if (of_char c :: nat) < 0x20
        then [CHR 0x5C, CHR ''u'', CHR ''0'', CHR ''0'',
              hexDigit ((of_char c :: nat) div 16), hexDigit (of_char c :: nat)]
      else [c])"

definition QuoteJSONString :: "string \<Rightarrow> string" where
  "QuoteJSONString s = [CHR 0x22] @ concat (map quoteChar s) @ [CHR 0x22]"

fun SerializeJSONProperty :: "(real \<Rightarrow> string) \<Rightarrow> string \<Rightarrow> string \<Rightarrow> json \<Rightarrow> string"
and SerializeJSONMembers ::
    "(real \<Rightarrow> string) \<Rightarrow> string \<Rightarrow> string \<Rightarrow> (string \<times> json) list \<Rightarrow> string list" where
  "SerializeJSONProperty fmt gap indent JNull = ''null''"
| "SerializeJSONProperty fmt gap indent (JNumber n) = fmt n"
| "SerializeJSONProperty fmt gap indent (JString s) = QuoteJSONString s"
| "SerializeJSONProperty fmt gap indent (JObject members) =
     (let stepback = indent;
          indent' = indent @ gap;
          partial = SerializeJSONMembers fmt gap indent' members
      in if partial = [] then ''{}''
         else if gap = [] then ''{'' @ join '','' partial @ ''}''
         else ''{'' @ [CHR 0x0A] @ indent' @ join ('','' @ [CHR 0x0A] @ indent') partial
              @ [CHR 0x0A] @ stepback @ ''}'')"
| "SerializeJSONMembers fmt gap indent [] = []"
| "SerializeJSONMembers fmt gap indent ((k, v) # rest) =
     (QuoteJSONString k @ '':'' @ (if gap = [] then [] else '' '')
        @ SerializeJSONProperty fmt gap indent v)
     # SerializeJSONMembers fmt gap indent rest"

definition TextEncoder_encode :: "string \<Rightarrow> 8 word list" where
  "TextEncoder_encode s = map (\<lambda>c. of_char c) s"


definition JSON_stringify :: "(real \<Rightarrow> string) \<Rightarrow> json \<Rightarrow> string" where
  "JSON_stringify fmt v = SerializeJSONProperty fmt [] [] v"

text \<open>\<open>JSON.stringify(v, null, 2)\<close>: the gap is two spaces.\<close>

definition JSON_stringify_indent2 :: "(real \<Rightarrow> string) \<Rightarrow> json \<Rightarrow> string" where
  "JSON_stringify_indent2 fmt v = SerializeJSONProperty fmt ''  '' [] v"

record Location =
  latitude :: "real option"
  longitude :: "real option"
  accuracy :: "real option"

record Evidence =
  photo :: string
  audioSignature :: string

record Metadata =
  userAgent :: string
  deviceInfo :: string
  captureDelay :: int

record TrustPacket =
  eventId :: string
  packetTimestamp :: string
  location :: Location
  evidence :: Evidence
  metadata :: Metadata
  hash :: "string option"

definition nullable :: "real option \<Rightarrow> json" where
  "nullable v = (case v of None \<Rightarrow> JNull | Some x \<Rightarrow> JNumber x)"

text \<open>The object \<open>JSON.stringify\<close> walks: keys in creation order, the optional
  \<open>hash\<close> last and only when it is set.\<close>

definition packetJson :: "TrustPacket \<Rightarrow> json" where
  "packetJson p =
     JObject
       ([(''eventId'', JString (eventId p)),
         (''timestamp'', JString (packetTimestamp p)),
         (''location'', JObject
            [(''latitude'', nullable (latitude (location p))),
             (''longitude'', nullable (longitude (location p))),
             (''accuracy'', nullable (accuracy (location p)))]),
         (''evidence'', JObject
            [(''photo'', JString (photo (evidence p))),
             (''audioSignature'', JString (audioSignature (evidence p)))]),
         (''metadata'', JObject
            [(''userAgent'', JString (userAgent (metadata p))),
             (''deviceInfo'', JString (deviceInfo (metadata p))),
             (''captureDelay'', JNumber (of_int (captureDelay (metadata p))))])]
        @ (case hash p of None \<Rightarrow> [] | Some h \<Rightarrow> [(''hash'', JString h)]))"

text \<open>Outcome of \<open>crypto.subtle.digest('SHA-256', bytes)\<close>: the digest bytes, or an
  exception.\<close>

datatype digest_result = DigestBytes "8 word list" | DigestThrows

definition toString16 :: "8 word \<Rightarrow> string" where
  "toString16 b =
     (if unat b < 16 then [hexDigit (unat b)]
      else [hexDigit (unat b div 16), hexDigit (unat b)])"

definition padStart :: "nat \<Rightarrow> char \<Rightarrow> string \<Rightarrow> string" where
  "padStart n c s = replicate (n - length s) c @ s"

definition generateHash :: "(8 word list \<Rightarrow> digest_result) \<Rightarrow> string \<Rightarrow> string" where
  "generateHash subtleDigest data =
     (case subtleDigest (TextEncoder_encode data) of
        DigestBytes hashArray \<Rightarrow>
          concat (map (\<lambda>b. padStart 2 (CHR ''0'') (toString16 b)) hashArray)
      | DigestThrows \<Rightarrow> ''hash_unavailable'')"

text \<open>Outcomes of the three acquisitions, each taken to settle: a camera that never
  reports its metadata would leave \<open>captureEvidence\<close> pending, which is not one of
  the outcomes below.\<close>

datatype photo_outcome =
    CameraUnavailable
  | NoCanvasContext
  | VideoError
  | PhotoTaken string

datatype geo_outcome =
    NoGeolocation
  | GeolocationError
  | Position real real real

datatype audio_outcome =
    AudioUnavailable
  | FrequencyData "8 word list"

definition capturePhoto :: "photo_outcome \<Rightarrow> string + string" where
  "capturePhoto outcome =
     (case outcome of
        CameraUnavailable \<Rightarrow> Inl ''Camera access denied or not available''
      | NoCanvasContext \<Rightarrow> Inl ''Failed to get canvas context''
      | VideoError \<Rightarrow> Inl ''Failed to capture photo''
      | PhotoTaken dataURL \<Rightarrow> Inr dataURL)"

definition getCurrentLocation :: "geo_outcome \<Rightarrow> Location" where
  "getCurrentLocation outcome =
     (case outcome of
        NoGeolocation \<Rightarrow> \<lparr>latitude = None, longitude = None, accuracy = None\<rparr>
      | GeolocationError \<Rightarrow> \<lparr>latitude = None, longitude = None, accuracy = None\<rparr>
      | Position lat lon acc \<Rightarrow>
          \<lparr>latitude = Some lat, longitude = Some lon, accuracy = Some acc\<rparr>)"

definition byteToDecimal :: "8 word \<Rightarrow> string" where
  "byteToDecimal b =
     (let n = unat b in
      if n < 10 then [hexDigit n]
      else if n < 100 then [hexDigit (n div 10), hexDigit (n mod 10)]
      else [hexDigit (n div 100), hexDigit (n div 10 mod 10), hexDigit (n mod 10)])"

definition generateAudioSignature :: "audio_outcome \<Rightarrow> string" where
  "generateAudioSignature outcome =
     (case outcome of
        FrequencyData dataArray \<Rightarrow> join '','' (map byteToDecimal (take 32 dataArray))
      | AudioUnavailable \<Rightarrow> ''audio_unavailable'')"

text \<open>What \<open>captureEvidence\<close> reads from its surroundings: the outcomes of the three
  acquisitions, the two readings of \<open>Date.now()\<close>, the result of \<open>generateEventId\<close>
  and of \<open>toISOString\<close>, the navigator's strings, the digest primitive and the rendering
  of numbers.\<close>

record CaptureEnv =
  photoOutcome :: photo_outcome
  geoOutcome :: geo_outcome
  audioOutcome :: audio_outcome
  startTime :: int
  endTime :: int
  newEventId :: string
  isoNow :: string
  navUserAgent :: string
  navPlatform :: string
  navLanguage :: string
  subtleDigest :: "8 word list \<Rightarrow> digest_result"
  numberToString :: "real \<Rightarrow> string"

text \<open>Step 5 of \<open>captureEvidence\<close>: serialise the packet, hash the string, attach the
  hash.\<close>

definition sealPacket ::
    "(8 word list \<Rightarrow> digest_result) \<Rightarrow> (real \<Rightarrow> string) \<Rightarrow> TrustPacket \<Rightarrow> TrustPacket" where
  "sealPacket digest fmt trustPacket =
     (let packetString = JSON_stringify fmt (packetJson trustPacket);
          h = generateHash digest packetString
      in trustPacket\<lparr>hash := Some h\<rparr>)"

text \<open>\<open>Promise.all\<close> rejects as soon as one of its promises rejects; of the three,
  only \<open>capturePhoto\<close> can reject. The alert sound and the pause before the capture
  leave no trace in the packet.\<close>

definition captureEvidence :: "CaptureEnv \<Rightarrow> string + TrustPacket" where
  "captureEvidence env =
     (case capturePhoto (photoOutcome env) of
        Inl err \<Rightarrow> Inl err
      | Inr photoData \<Rightarrow>
          let loc = getCurrentLocation (geoOutcome env);
              audio = generateAudioSignature (audioOutcome env);
              delay = endTime env - startTime env;
              trustPacket =
                \<lparr>eventId = newEventId env,
                 packetTimestamp = isoNow env,
                 location = loc,
                 evidence = \<lparr>photo = photoData, audioSignature = audio\<rparr>,
                 metadata =
                   \<lparr>userAgent = navUserAgent env,
                    deviceInfo = navPlatform env @ '' - '' @ navLanguage env,
                    captureDelay = delay\<rparr>,
                 hash = None\<rparr>
          in Inr (sealPacket (subtleDigest env) (numberToString env) trustPacket))"

text \<open>The rest pattern \<open>{ hash, ...packetWithoutHash }\<close> of \<open>handleCopyVerification\<close>.\<close>

definition packetWithoutHash :: "TrustPacket \<Rightarrow> TrustPacket" where
  "packetWithoutHash trustPacket = trustPacket\<lparr>hash := None\<rparr>"

text \<open>\<open>handleCopyVerification\<close> returns the string handed to the clipboard, or nothing
  when no packet is held.\<close>

definition handleCopyVerification ::
    "(real \<Rightarrow> string) \<Rightarrow> TrustPacket option \<Rightarrow> string option" where
  "handleCopyVerification fmt trustPacket =
     (case trustPacket of
        None \<Rightarrow> None
      | Some tp \<Rightarrow> Some (JSON_stringify_indent2 fmt (packetJson (packetWithoutHash tp))))"

text \<open>The digest as the specification words it: the SHA-256 digest, in hexadecimal, of
  the UTF-8 encoding of the serialisation; there is none when the primitive fails.\<close>

definition sha256_hex_spec ::
    "(8 word list \<Rightarrow> digest_result) \<Rightarrow> string \<Rightarrow> string option" where
  "sha256_hex_spec digest serialization =
     (case digest (TextEncoder_encode serialization) of
        DigestBytes bs \<Rightarrow> Some (concat (map (\<lambda>b. padStart 2 (CHR ''0'') (toString16 b)) bs))
      | DigestThrows \<Rightarrow> None)"


subsection \<open>Concrete packets used to evaluate the sealing\<close>

function decimal :: "nat \<Rightarrow> string" where
  "decimal n = (if n < 10 then [hexDigit n] else decimal (n div 10) @ [hexDigit (n mod 10)])"
  by pat_completeness auto
termination
  by (relation "measure id") auto

declare decimal.simps [simp del]

text \<open>The rendering of whole numbers, which is all the examples need.\<close>

definition wholeNumberToString :: "real \<Rightarrow> string" where
  "wholeNumberToString r =
     (if r < 0 then ''-'' @ decimal (nat (- \<lfloor>r\<rfloor>)) else decimal (nat \<lfloor>r\<rfloor>))"

text \<open>A platform whose digest primitive throws (no \<open>crypto.subtle\<close>).\<close>

definition noSubtleCrypto :: "8 word list \<Rightarrow> digest_result" where
  "noSubtleCrypto bytes = DigestThrows"

text \<open>A stand-in for a working digest primitive: three bytes derived from the length of
  the input.\<close>

definition stubDigest :: "8 word list \<Rightarrow> digest_result" where
  "stubDigest bytes = DigestBytes [0x0a, 0xff, of_nat (length bytes)]"

definition exampleEnv :: CaptureEnv where
  "exampleEnv =
     \<lparr>photoOutcome = PhotoTaken ''data:image/jpeg;base64,AAAA'',
      geoOutcome = GeolocationError,
      audioOutcome = AudioUnavailable,
      startTime = 1000, endTime = 2650,
      newEventId = ''bodabox_1_abc'',
      isoNow = ''2025-09-20T16:58:53.000Z'',
      navUserAgent = ''UA'', navPlatform = ''Linux'', navLanguage = ''en'',
      subtleDigest = stubDigest,
      numberToString = wholeNumberToString\<rparr>"

definition examplePacket :: TrustPacket where
  "examplePacket =
     \<lparr>eventId = ''bodabox_1_abc'',
      packetTimestamp = ''2025-09-20T16:58:53.000Z'',
      location = \<lparr>latitude = None, longitude = None, accuracy = None\<rparr>,
      evidence = \<lparr>photo = ''data:image/jpeg;base64,AAAA'',
                  audioSignature = ''audio_unavailable''\<rparr>,
      metadata = \<lparr>userAgent = ''UA'', deviceInfo = ''Linux - en'', captureDelay = 1650\<rparr>,
      hash = None\<rparr>"

definition noCameraEnv :: CaptureEnv where
  "noCameraEnv = exampleEnv\<lparr>photoOutcome := CameraUnavailable\<rparr>"

text \<open>Image acquisition failed: any outcome of \<open>capturePhoto\<close> other than a photo.\<close>

definition photoFailed :: "photo_outcome \<Rightarrow> bool" where
  "photoFailed outcome = (case outcome of PhotoTaken d \<Rightarrow> False | _ \<Rightarrow> True)"

definition nullLocation :: Location where
  "nullLocation = \<lparr>latitude = None, longitude = None, accuracy = None\<rparr>"

section \<open>Detection state machine (BodaBox.tsx, ConfirmingState.tsx)\<close>

text \<open>
  The state of the \<open>BodaBox\<close> component: its \<open>appState\<close>, the sensor-fusion hook it
  uses, and the \<open>countdown\<close> of the \<open>ConfirmingState\<close> child, which exists while
  \<open>appState\<close> is \<open>CONFIRMING\<close> and starts at 5 when that child is mounted.
\<close>

datatype AppState = ARMED | CONFIRMING | TRIGGERED

record BodaBox =
  appState :: AppState
  sensor :: SensorFusion
  countdown :: nat

text \<open>What can happen to the component: a motion event reaches \<open>handleMotionEvent\<close>,
  a button is pressed, or the one-second timer of the countdown fires.\<close>

datatype ui_event =
    MotionEvent int int DeviceMotionEvent
  | EmergencyButton
  | CountdownTimer
  | CancelButton
  | ResetButton

definition setAppState :: "AppState \<Rightarrow> BodaBox \<Rightarrow> BodaBox" where
  "setAppState a b =
     (if a = CONFIRMING \<and> appState b \<noteq> CONFIRMING
      then b\<lparr>appState := a, countdown := 5\<rparr>
      else b\<lparr>appState := a\<rparr>)"

text \<open>The effect of \<open>BodaBox\<close> that handles automatic crash detection.\<close>

definition crashDetectionEffect :: "BodaBox \<Rightarrow> BodaBox" where
  "crashDetectionEffect b =
     (if isCrashDetected (fusionState (sensor b)) \<and> appState b = ARMED
      then setAppState CONFIRMING b else b)"

definition handleEmergencyButton :: "BodaBox \<Rightarrow> BodaBox" where
  "handleEmergencyButton b = (if appState b = ARMED then setAppState CONFIRMING b else b)"

definition handleConfirmCrash :: "BodaBox \<Rightarrow> BodaBox" where
  "handleConfirmCrash b = setAppState TRIGGERED b"

definition handleCancelAlert :: "BodaBox \<Rightarrow> BodaBox" where
  "handleCancelAlert b = setAppState ARMED (b\<lparr>sensor := resetCrashDetection (sensor b)\<rparr>)"

definition handleReset :: "BodaBox \<Rightarrow> BodaBox" where
  "handleReset b = setAppState ARMED (b\<lparr>sensor := resetCrashDetection (sensor b)\<rparr>)"

text \<open>The countdown timer of \<open>ConfirmingState\<close>: the timer is armed only while
  \<open>countdown > 0\<close>; when it fires the countdown drops by one, and the effect that runs
  next calls \<open>onConfirm\<close> once the countdown is 0.\<close>

definition countdownTimer :: "BodaBox \<Rightarrow> BodaBox" where
  "countdownTimer b =
     (let b1 = b\<lparr>countdown := countdown b - 1\<rparr>
      in if countdown b1 > 0 then b1 else handleConfirmCrash b1)"

text \<open>An event reaches the handler of the child that is rendered for the current
  \<open>appState\<close>; the buttons and the timer of the other children do not exist. After the
  handler the crash-detection effect runs.\<close>

definition dispatch :: "ui_event \<Rightarrow> BodaBox \<Rightarrow> BodaBox" where
  "dispatch e b =
     crashDetectionEffect
       (case e of
          MotionEvent tPush tAnalyze event \<Rightarrow>
            b\<lparr>sensor := handleMotionEvent tPush tAnalyze event (sensor b)\<rparr>
        | EmergencyButton \<Rightarrow> (if appState b = ARMED then handleEmergencyButton b else b)
        | CountdownTimer \<Rightarrow>
            (if appState b = CONFIRMING \<and> countdown b > 0 then countdownTimer b else b)
        | CancelButton \<Rightarrow> (if appState b = CONFIRMING then handleCancelAlert b else b)
        | ResetButton \<Rightarrow> (if appState b = TRIGGERED then handleReset b else b))"

definition initialBodaBox :: BodaBox where
  "initialBodaBox = \<lparr>appState = ARMED, sensor = initialFusion, countdown = 5\<rparr>"

definition runEvents :: "ui_event list \<Rightarrow> BodaBox \<Rightarrow> BodaBox" where
  "runEvents es b = foldl (\<lambda>s e. dispatch e s) b es"

inductive reachable :: "BodaBox \<Rightarrow> bool" where
  reachable_init: "reachable initialBodaBox"
| reachable_step: "reachable b \<Longrightarrow> reachable (dispatch e b)"

text \<open>A positive detection: a motion event that carries acceleration and rotation rate
  and for which \<open>analyzeBuffer\<close> returns true on the buffer after the push.\<close>

definition positiveDetection :: "ui_event \<Rightarrow> BodaBox \<Rightarrow> bool" where
  "positiveDetection e b =
     (case e of
        MotionEvent tPush tAnalyze event \<Rightarrow>
          (case acceleration event of
             None \<Rightarrow> False
           | Some acc \<Rightarrow>
               (case rotationRate event of
                  None \<Rightarrow> False
                | Some rot \<Rightarrow>
                    analyzeBuffer tAnalyze
                      (pushReading (mkReading tPush acc rot) (sensorBuffer (sensor b)))))
      | _ \<Rightarrow> False)"

subsection \<open>A concrete run of the state machine\<close>

text \<open>Nine motion events 10 ms apart at 5 g without rotation, then a tenth one with
  rotation 120.\<close>

definition nineSampleEvents :: "ui_event list" where
  "nineSampleEvents =
     map (\<lambda>k. MotionEvent (10 * int k) (10 * int k)
            \<lparr>acceleration = Some (Some 5, None, None),
             rotationRate = Some (Some 0, None, None)\<rparr>) [0..<9]"

definition crashEvent :: ui_event where
  "crashEvent =
     MotionEvent 90 90
       \<lparr>acceleration = Some (Some 5, None, None),
        rotationRate = Some (Some 120, None, None)\<rparr>"

definition armedBox :: BodaBox where
  "armedBox = runEvents nineSampleEvents initialBodaBox"

definition confirmingBox :: BodaBox where
  "confirmingBox = dispatch crashEvent armedBox"

definition triggeredBox :: BodaBox where
  "triggeredBox = runEvents (replicate 5 CountdownTimer) confirmingBox"

section \<open>Offline durability queue (useOfflineQueue.ts)\<close>

datatype item_type = emergency_sms | trust_packet

record QueuedItem =
  item_id :: string
  item_type :: item_type
  item_data :: string
  item_timestamp :: int
  retryCount :: nat

text \<open>The entry \<open>boda_offline_queue\<close> of \<open>localStorage\<close>: absent, or the stored
  list.\<close>

type_synonym queue_storage = "QueuedItem list option"

definition getQueue :: "queue_storage \<Rightarrow> QueuedItem list" where
  "getQueue storage = (case storage of None \<Rightarrow> [] | Some queue \<Rightarrow> queue)"

text \<open>\<open>addToQueue\<close>; the fresh id (type, time and a random suffix) and the time are
  passed in. Returns the new storage and the id.\<close>

definition addToQueue ::
    "string \<Rightarrow> int \<Rightarrow> item_type \<Rightarrow> string \<Rightarrow> queue_storage \<Rightarrow> queue_storage \<times> string" where
  "addToQueue newId now ty dat storage =
     (let item = \<lparr>item_id = newId, item_type = ty, item_data = dat,
                  item_timestamp = now, retryCount = 0\<rparr>;
          queue = getQueue storage @ [item]
      in (Some queue, item_id item))"

text \<open>What one pass of the loop of \<open>processQueue\<close> leaves behind: the queue as held in
  memory (with the retry counts it incremented), the processed ids, the items handed to
  \<open>sendEmergencySMS\<close>, and the ids logged as removed after three retries.\<close>

record DrainLog =
  memoryQueue :: "QueuedItem list"
  processedIds :: "string list"
  attempted :: "QueuedItem list"
  removedAfterRetries :: "string list"

text \<open>The body of the loop for one item; \<open>send item\<close> tells whether
  \<open>sendEmergencySMS\<close> resolves (true) or throws (false) for it.\<close>

definition processItem :: "(QueuedItem \<Rightarrow> bool) \<Rightarrow> QueuedItem \<Rightarrow> DrainLog \<Rightarrow> DrainLog" where
  "processItem send item dl =
     (case item_type item of
        emergency_sms \<Rightarrow>
          (if send item
           then dl\<lparr>memoryQueue := memoryQueue dl @ [item],
                    processedIds := processedIds dl @ [item_id item],
                    attempted := attempted dl @ [item]\<rparr>
           else
             let item' = item\<lparr>retryCount := retryCount item + 1\<rparr>
             in if retryCount item' \<ge> 3
                then dl\<lparr>memoryQueue := memoryQueue dl @ [item'],
                         processedIds := processedIds dl @ [item_id item'],
                         attempted := attempted dl @ [item],
                         removedAfterRetries := removedAfterRetries dl @ [item_id item']\<rparr>
                else dl\<lparr>memoryQueue := memoryQueue dl @ [item'],
                         attempted := attempted dl @ [item]\<rparr>)
      | trust_packet \<Rightarrow>
          dl\<lparr>memoryQueue := memoryQueue dl @ [item],
              processedIds := processedIds dl @ [item_id item]\<rparr>)"

definition emptyLog :: DrainLog where
  "emptyLog = \<lparr>memoryQueue = [], processedIds = [], attempted = [], removedAfterRetries = []\<rparr>"

definition processItems :: "(QueuedItem \<Rightarrow> bool) \<Rightarrow> QueuedItem list \<Rightarrow> DrainLog" where
  "processItems send queue = foldl (\<lambda>dl item. processItem send item dl) emptyLog queue"

text \<open>\<open>processQueue\<close>: returns the storage it leaves and the record of the pass. The
  storage is written only when some id was processed.\<close>

definition processQueue ::
    "bool \<Rightarrow> (QueuedItem \<Rightarrow> bool) \<Rightarrow> queue_storage \<Rightarrow> queue_storage \<times> DrainLog" where
  "processQueue onLine send storage =
     (if \<not> onLine then (storage, emptyLog)
      else
        let queue = getQueue storage
        in if length queue = 0 then (storage, emptyLog)
           else
             let dl = processItems send queue
             in if length (processedIds dl) > 0
                then (Some (filter (\<lambda>item. item_id item \<notin> set (processedIds dl))
                              (memoryQueue dl)), dl)
                else (storage, dl))"

text \<open>Repeated drains while online, collecting the items handed to the dispatch and the
  ids reported as removed.\<close>

fun drains ::
    "nat \<Rightarrow> (QueuedItem \<Rightarrow> bool) \<Rightarrow> queue_storage
      \<Rightarrow> queue_storage \<times> QueuedItem list \<times> string list" where
  "drains 0 send storage = (storage, [], [])"
| "drains (Suc n) send storage =
     (case processQueue True send storage of
        (storage', dl) \<Rightarrow>
          (case drains n send storage' of
             (storage'', sent, removed) \<Rightarrow>
               (storage'', attempted dl @ sent, removedAfterRetries dl @ removed)))"

subsection \<open>A concrete queue\<close>

definition neverSends :: "QueuedItem \<Rightarrow> bool" where
  "neverSends item = False"

definition smsItem :: QueuedItem where
  "smsItem =
     \<lparr>item_id = ''emergency_sms_1_abc'', item_type = emergency_sms, item_data = ''{}'',
      item_timestamp = 1, retryCount = 0\<rparr>"

text \<open>The item is enqueued while offline into an empty storage.\<close>

definition stuckStorage :: queue_storage where
  "stuckStorage = fst (addToQueue ''emergency_sms_1_abc'' 1 emergency_sms ''{}'' None)"

section \<open>Properties of the sample buffer and the crash detector\<close>

subsection \<open>Rounding to a double\<close>

lemma round_half_even_of_int: "round_half_even (of_int m) = m"
  by (simp add: round_half_even_def)

lemma round_half_even_near:
  assumes "\<bar>r - of_int m\<bar> < 1 / 2"
  shows "round_half_even r = m"
proof (cases "of_int m \<le> r")
  case True
  with assms have "\<lfloor>r\<rfloor> = m" by linarith
  with assms True show ?thesis by (simp add: round_half_even_def Let_def)
next
  case False
  with assms have f: "\<lfloor>r\<rfloor> = m - 1" by linarith
  with assms False have "1 / 2 < r - of_int (m - 1)" by simp
  with f show ?thesis by (simp add: round_half_even_def Let_def)
qed

lemma ulp_exponent_of_int:
  assumes "n \<noteq> 0" and "\<bar>n\<bar> < 2 ^ 53"
  shows "ulp_exponent (of_int n) \<le> 0"
proof -
  have pos: "0 < \<bar>real_of_int n\<bar>" using assms(1) by simp
  have "\<bar>real_of_int n\<bar> < 2 ^ 53"
    using assms(2) by (metis of_int_abs of_int_less_numeral_power_cancel_iff)
  then have "log 2 \<bar>real_of_int n\<bar> < 53"
    using pos by (simp add: log_less_iff powr_realpow)
  then have "\<lfloor>log 2 \<bar>real_of_int n\<bar>\<rfloor> < 53" by linarith
  then show ?thesis by (simp add: ulp_exponent_def)
qed

lemma round_double_grid:
  assumes "j \<le> 0"
  shows "of_int (round_half_even (of_int n / 2 powi j)) * 2 powi j = (of_int n :: real)"
proof -
  obtain k where k: "j = - int k" using assms by (metis add.inverse_inverse nonpos_int_cases)
  have p: "(2::real) powi j = 1 / 2 ^ k" by (simp add: k power_int_minus field_simps)
  then have "of_int n / (2::real) powi j = of_int (n * 2 ^ k)" by simp
  then have "round_half_even (of_int n / 2 powi j) = n * 2 ^ k"
    by (simp only: round_half_even_of_int)
  then show ?thesis using p by simp
qed

text \<open>Whole numbers below \<open>2 ^ 53\<close> in magnitude are doubles.\<close>

lemma round_double_of_int:
  assumes "\<bar>n\<bar> < 2 ^ 53"
  shows "round_double (of_int n) = of_int n"
proof (cases "n = 0")
  case True
  then show ?thesis by (simp add: round_double_def)
next
  case False
  from ulp_exponent_of_int [OF False assms] round_double_grid
  show ?thesis using False by (simp add: round_double_def)
qed

lemma round_double_numeral [simp]:
  "numeral k < (9007199254740992::int) \<Longrightarrow> round_double (numeral k) = numeral k"
  using round_double_of_int [of "numeral k"] by simp

lemma round_double_neg_numeral [simp]:
  "numeral k < (9007199254740992::int) \<Longrightarrow> round_double (- numeral k) = - numeral k"
  using round_double_of_int [of "- numeral k"] by simp

lemma round_double_0 [simp]: "round_double 0 = 0"
  by (simp add: round_double_def)

lemma round_double_1 [simp]: "round_double 1 = 1"
  using round_double_of_int [of 1] by simp

lemma floor_log2:
  assumes "2 powi e \<le> \<bar>x\<bar>" and "\<bar>x\<bar> < 2 powi (e + 1)"
  shows "\<lfloor>log 2 \<bar>x\<bar>\<rfloor> = e"
proof -
  have "0 < (2::real) powi e" by simp
  with assms(1) have pos: "0 < \<bar>x\<bar>" by linarith
  have "of_int e \<le> log 2 \<bar>x\<bar>"
    using assms(1) pos by (simp add: le_log_iff powr_real_of_int')
  moreover have "log 2 \<bar>x\<bar> < of_int (e + 1)"
    using assms(2) pos powr_real_of_int' [of 2 "e + 1"]
    by (simp add: log_less_iff del: of_int_add)
  ultimately show ?thesis by linarith
qed

text \<open>A real closer than half a unit in the last place to a double rounds to it.\<close>

lemma round_double_near:
  assumes "2 powi e \<le> \<bar>x\<bar>" and "\<bar>x\<bar> < 2 powi (e + 1)" and "- 1022 \<le> e"
    and "\<bar>x - of_int m * 2 powi (e - 52)\<bar> < 2 powi (e - 52) / 2"
  shows "round_double x = of_int m * 2 powi (e - 52)"
proof -
  have "0 < (2::real) powi e" by simp
  with assms(1) have "0 < \<bar>x\<bar>" by linarith
  then have ne: "x \<noteq> 0" by simp
  have u: "ulp_exponent x = e - 52"
    using floor_log2 [OF assms(1,2)] assms(3) by (simp add: ulp_exponent_def)
  let ?p = "(2::real) powi (e - 52)"
  have p: "0 < ?p" by simp
  have "x / ?p - of_int m = (x - of_int m * ?p) / ?p"
    using p by (simp add: field_simps)
  then have "\<bar>x / ?p - of_int m\<bar> = \<bar>x - of_int m * ?p\<bar> / ?p"
    using p by (simp only: abs_divide)
  also have "\<dots> < 1 / 2" using assms(4) p by (simp add: field_simps)
  finally have "round_half_even (x / ?p) = m" by (rule round_half_even_near)
  then show ?thesis using ne u by (simp add: round_double_def)
qed

lemma round_double_below_90: "round_double (90 - 1 / 2 ^ 60) = 90"
proof -
  have "round_double (90 - 1 / 2 ^ 60) = of_int (90 * 2 ^ 46) * 2 powi (6 - 52)"
    by (rule round_double_near) (simp_all add: power_int_minus)
  then show ?thesis by (simp add: power_int_minus)
qed

lemma round_double_tiny_square: "round_double (1 / 2 ^ 60) = 1 / 2 ^ 60"
proof -
  have "round_double (1 / 2 ^ 60) = of_int (2 ^ 52) * 2 powi (- 60 - 52)"
    by (rule round_double_near) (simp_all add: power_int_minus)
  then show ?thesis by (simp add: power_int_minus)
qed

lemma round_double_above_16: "round_double (16 + 1 / 2 ^ 60) = 16"
proof -
  have "round_double (16 + 1 / 2 ^ 60) = of_int (2 ^ 52) * 2 powi (4 - 52)"
    by (rule round_double_near) (simp_all add: power_int_minus)
  then show ?thesis by (simp add: power_int_minus)
qed

subsection \<open>Magnitudes and rotation changes of the examples\<close>

lemma calculateMagnitude_axis:
  assumes "\<bar>n * n\<bar> < 2 ^ 53"
  shows "calculateMagnitude (of_int n) 0 0 = \<bar>of_int n\<bar>"
proof -
  have sq: "round_double (of_int n * of_int n) = of_int n * of_int n"
    using round_double_of_int [OF assms] by simp
  have "\<bar>n\<bar> \<le> \<bar>n * n\<bar>"
  proof (cases "n = 0")
    case True
    then show ?thesis by simp
  next
    case False
    then have "1 \<le> \<bar>n\<bar>" by simp
    then have "\<bar>n\<bar> * 1 \<le> \<bar>n\<bar> * \<bar>n\<bar>" by (intro mult_left_mono) simp_all
    then show ?thesis by (simp add: abs_mult)
  qed
  with assms have "\<bar>\<bar>n\<bar>\<bar> < 2 ^ 53" by simp
  from round_double_of_int [OF this]
  have ab: "round_double \<bar>of_int n\<bar> = \<bar>of_int n\<bar>" by simp
  show ?thesis
    by (simp add: calculateMagnitude_def sq ab)
qed

lemma calculateMagnitude_numeral [simp]:
  "numeral k * numeral k < (9007199254740992::int)
   \<Longrightarrow> calculateMagnitude (numeral k) 0 0 = numeral k"
  using calculateMagnitude_axis [of "numeral k"] by simp

lemma calculateMagnitude_0 [simp]: "calculateMagnitude 0 0 0 = 0"
  using calculateMagnitude_axis [of 0] by simp

lemma calculateMagnitude_1 [simp]: "calculateMagnitude 1 0 0 = 1"
  using calculateMagnitude_axis [of 1] by simp

text \<open>The acceleration \<open>(4, 1 / 2 ^ 30, 0)\<close> is longer than 4, yet the source computes
  exactly 4 for it: the square of the small component is lost when it is added to 16.\<close>

lemma calculateMagnitude_barely_above_4:
  "calculateMagnitude 4 (1 / 2 ^ 30) 0 = 4"
proof -
  have a: "round_double (4 * 4) = 16" by simp
  have "(1 / 2 ^ 30) * (1 / 2 ^ 30) = (1 / 2 ^ 60 :: real)" by simp
  then have b: "round_double ((1 / 2 ^ 30) * (1 / 2 ^ 30)) = 1 / 2 ^ 60"
    by (simp only: round_double_tiny_square)
  have c: "sqrt 16 = 4" by (rule real_sqrt_unique) simp_all
  show ?thesis
    unfolding calculateMagnitude_def a b
    by (simp only: round_double_above_16 mult_zero_left round_double_0 add_0_right c)
       simp
qed

lemma abs_round_double_120: "\<bar>d\<bar> = 120 \<Longrightarrow> \<bar>round_double d\<bar> = 120"
proof -
  assume "\<bar>d\<bar> = 120"
  then have "d = 120 \<or> d = - 120" by linarith
  then show ?thesis by auto
qed

subsection \<open>The example buffers\<close>

lemma upt4: "[0..<4] = [0,1,2,3]"
  by (simp add: upt_rec)

lemma upt6: "[0..<6] = [0,1,2,3,4,5]"
  by (simp add: upt_rec)

lemma upt10: "[0..<10] = [0,1,2,3,4,5,6,7,8,9]"
  by (simp add: upt_rec)

lemma scenarioA_run:
  "sensorBuffer (runOps scenarioA_ops initialFusion) = scenarioA_buffer"
  by (simp add: scenarioA_ops_def scenarioA_buffer_def upt6 runOps_def initialFusion_def
      handleMotionEvent_def pushReading_def mkReading_def orZero_def sample_def
      BUFFER_SIZE_def Let_def)

lemma highG_all:
  assumes "\<forall>r \<in> set rs.
     calculateMagnitude (accelerationX r) (accelerationY r) (accelerationZ r) = 5"
  shows "highGReadings rs = rs"
  using assms by (simp add: highGReadings_def HIGH_G_THRESHOLD_def)

lemma rotationChange_120:
  assumes "2 \<le> length rs"
    and "\<bar>rotationAlpha (last rs) - rotationAlpha (hd rs)\<bar> = 120
         \<or> \<bar>rotationBeta (last rs) - rotationBeta (hd rs)\<bar> = 120
         \<or> \<bar>rotationGamma (last rs) - rotationGamma (hd rs)\<bar> = 120"
  shows "120 \<le> calculateRotationChange rs"
proof -
  from assms(1) have ne: "rs \<noteq> []" by auto
  then have nth: "rs ! 0 = hd rs" "rs ! (length rs - 1) = last rs"
    by (simp_all add: hd_conv_nth last_conv_nth)
  from assms(2) have
    "\<bar>round_double (rotationAlpha (last rs) - rotationAlpha (hd rs))\<bar> = 120
     \<or> \<bar>round_double (rotationBeta (last rs) - rotationBeta (hd rs))\<bar> = 120
     \<or> \<bar>round_double (rotationGamma (last rs) - rotationGamma (hd rs))\<bar> = 120"
    using abs_round_double_120 by blast
  with assms(1) nth show ?thesis
    by (auto simp add: calculateRotationChange_def Let_def)
qed

lemma recent_scenarioA_full:
  "recentReadings 100 scenarioA_full = scenarioA_buffer"
  by (simp add: scenarioA_full_def olderSamples_def scenarioA_buffer_def upt4 upt6
      recentReadings_def sample_def SUSTAINED_DURATION_MS_def)

subsection \<open>Scenario A\<close>

text \<open>
  C1 (as amended). When the buffer holds at least 10 samples in total, exactly 6 of them
  lie within the last 100 ms, each of these 6 has acceleration magnitude 5.0 g, and the
  rotation change between the first and the last of them is 120 on some axis, then
  \<open>analyzeBuffer\<close> returns true.
\<close>

theorem scenarioA_ten_samples:
  assumes "10 \<le> length buffer"
    and "length (recentReadings now buffer) = 6"
    and "\<forall>r \<in> set (recentReadings now buffer).
           calculateMagnitude (accelerationX r) (accelerationY r) (accelerationZ r) = 5"
    and "\<bar>rotationAlpha (last (recentReadings now buffer))
            - rotationAlpha (hd (recentReadings now buffer))\<bar> = 120
         \<or> \<bar>rotationBeta (last (recentReadings now buffer))
            - rotationBeta (hd (recentReadings now buffer))\<bar> = 120
         \<or> \<bar>rotationGamma (last (recentReadings now buffer))
            - rotationGamma (hd (recentReadings now buffer))\<bar> = 120"
  shows "analyzeBuffer now buffer"
proof -
  let ?recent = "recentReadings now buffer"
  have hg: "highGReadings ?recent = ?recent"
    using assms(3) by (rule highG_all)
  have "2 \<le> length ?recent" using assms(2) by simp
  from rotationChange_120 [OF this assms(4)]
  have "120 \<le> calculateRotationChange ?recent" .
  then show ?thesis
    using assms(1,2) hg by (simp add: analyzeBuffer_def ROTATION_THRESHOLD_def)
qed

text \<open>Witness for C1 as amended: scenario A preceded by four older samples.\<close>

theorem scenarioA_ten_samples_witness:
  "10 \<le> length scenarioA_full
   \<and> length (recentReadings 100 scenarioA_full) = 6
   \<and> list_all (\<lambda>r.
           calculateMagnitude (accelerationX r) (accelerationY r) (accelerationZ r) = 5)
         (recentReadings 100 scenarioA_full)
   \<and> \<bar>rotationAlpha (last (recentReadings 100 scenarioA_full))
            - rotationAlpha (hd (recentReadings 100 scenarioA_full))\<bar> = 120
   \<and> analyzeBuffer 100 scenarioA_full"
proof -
  have h1: "10 \<le> length scenarioA_full"
    by (simp add: scenarioA_full_def olderSamples_def scenarioA_buffer_def)
  have h2: "length (recentReadings 100 scenarioA_full) = 6"
    by (simp add: recent_scenarioA_full scenarioA_buffer_def)
  have h3: "\<forall>r \<in> set (recentReadings 100 scenarioA_full).
           calculateMagnitude (accelerationX r) (accelerationY r) (accelerationZ r) = 5"
    by (simp add: recent_scenarioA_full scenarioA_buffer_def upt6 sample_def)
  have h4: "\<bar>rotationAlpha (last (recentReadings 100 scenarioA_full))
            - rotationAlpha (hd (recentReadings 100 scenarioA_full))\<bar> = 120"
    by (simp add: recent_scenarioA_full scenarioA_buffer_def upt6 sample_def)
  from scenarioA_ten_samples [OF h1 h2 h3 disjI1 [OF h4]] h1 h2 h3 h4
  show ?thesis by (simp add: list_all_iff)
qed

text \<open>
  Counterexample to C1 as stated: six samples pushed into a fresh buffer within 100 ms,
  each of magnitude 5.0 g, rotation change 120; \<open>analyzeBuffer\<close> returns false.
\<close>

theorem scenarioA_counterexample:
  "length (sensorBuffer (runOps scenarioA_ops initialFusion)) = 6
   \<and> list_all (\<lambda>r. 100 - timestamp r \<le> 100
        \<and> calculateMagnitude (accelerationX r) (accelerationY r) (accelerationZ r) = 5)
       (sensorBuffer (runOps scenarioA_ops initialFusion))
   \<and> calculateRotationChange (sensorBuffer (runOps scenarioA_ops initialFusion)) = 120
   \<and> \<not> analyzeBuffer 100 (sensorBuffer (runOps scenarioA_ops initialFusion))"
  unfolding scenarioA_run
  by (simp add: scenarioA_buffer_def upt6 sample_def calculateRotationChange_def
      analyzeBuffer_def)

subsection \<open>The gates of the detector\<close>

text \<open>
  C2 (as amended). \<open>analyzeBuffer\<close> returns true if and only if the buffer holds at
  least 10 samples in total and, on the window of samples not older than 100 ms, at least
  5 samples populate the window, at least 3 of them have an acceleration magnitude that,
  as computed in double precision, exceeds 4.0 g, and the maximum endpoint rotation
  change, as computed in double precision, is at least 90. Lowering the input of any
  single gate below its threshold makes the result false.
\<close>

theorem analyzeBuffer_gates:
  "(analyzeBuffer now buffer \<longleftrightarrow>
      10 \<le> length buffer
      \<and> 5 \<le> length (recentReadings now buffer)
      \<and> 3 \<le> length (highGReadings (recentReadings now buffer))
      \<and> 90 \<le> calculateRotationChange (recentReadings now buffer))
   \<and> (length buffer < 10 \<longrightarrow> \<not> analyzeBuffer now buffer)
   \<and> (length (recentReadings now buffer) < 5 \<longrightarrow> \<not> analyzeBuffer now buffer)
   \<and> (length (highGReadings (recentReadings now buffer)) < 3
        \<longrightarrow> \<not> analyzeBuffer now buffer)
   \<and> (calculateRotationChange (recentReadings now buffer) < 90
        \<longrightarrow> \<not> analyzeBuffer now buffer)"
  by (auto simp add: analyzeBuffer_def ROTATION_THRESHOLD_def)

lemma recent_scenarioB:
  "recentReadings 100 scenarioB_buffer
   = map (\<lambda>k. sample (20 * int k) 5 (10 * real k)) [0..<6]"
  by (simp add: scenarioB_buffer_def olderSamples_def upt4 upt6
      recentReadings_def sample_def SUSTAINED_DURATION_MS_def)

lemma recent_fewInWindow:
  "recentReadings 100 fewInWindow_buffer
   = map (\<lambda>k. sample (20 * int k) 1000 (100 * real k)) [0..<4]"
  by (simp add: fewInWindow_buffer_def upt4 upt6
      recentReadings_def sample_def SUSTAINED_DURATION_MS_def)

lemma recent_twoHighG:
  "recentReadings 100 twoHighG_buffer = twoHighG_buffer"
  by (simp add: twoHighG_buffer_def upt10 recentReadings_def sample_def
      SUSTAINED_DURATION_MS_def)

lemma recent_belowNinety:
  "recentReadings 100 belowNinety_buffer = belowNinety_buffer"
  by (simp add: belowNinety_buffer_def upt_conv_Cons recentReadings_def sample_def
      SUSTAINED_DURATION_MS_def)

lemma recent_barelyAboveFour:
  "recentReadings 100 barelyAboveFour_buffer = barelyAboveFour_buffer"
  by (simp add: barelyAboveFour_buffer_def upt10 recentReadings_def
      SUSTAINED_DURATION_MS_def)

text \<open>
  Witness for C2 as amended, one input per gate: scenario B (rotation change 50), a
  window of only four very strong samples, a window with only two samples above 4.0 g,
  and the six samples of scenario A alone. Two more inputs sit at the thresholds, where
  the computed values decide: a rotation change that is below 90 exactly and 90 as
  computed passes, and a magnitude that is above 4 exactly and 4 as computed does not
  count.
\<close>

theorem analyzeBuffer_gates_witness:
  "(calculateRotationChange (recentReadings 100 scenarioB_buffer) < 90
      \<and> 10 \<le> length scenarioB_buffer
      \<and> 5 \<le> length (recentReadings 100 scenarioB_buffer)
      \<and> 3 \<le> length (highGReadings (recentReadings 100 scenarioB_buffer))
      \<and> \<not> analyzeBuffer 100 scenarioB_buffer)
   \<and> (length (recentReadings 100 fewInWindow_buffer) < 5
      \<and> \<not> analyzeBuffer 100 fewInWindow_buffer)
   \<and> (length (highGReadings (recentReadings 100 twoHighG_buffer)) < 3
      \<and> \<not> analyzeBuffer 100 twoHighG_buffer)
   \<and> (length scenarioA_buffer < 10 \<and> \<not> analyzeBuffer 100 scenarioA_buffer)
   \<and> (rotationAlpha (last belowNinety_buffer) - rotationAlpha (hd belowNinety_buffer) < 90
      \<and> calculateRotationChange (recentReadings 100 belowNinety_buffer) = 90
      \<and> analyzeBuffer 100 belowNinety_buffer)
   \<and> (4 < sqrt (4 * 4 + (1 / 2 ^ 30) * (1 / 2 ^ 30) + 0 * 0)
      \<and> length (highGReadings (recentReadings 100 barelyAboveFour_buffer)) < 3
      \<and> \<not> analyzeBuffer 100 barelyAboveFour_buffer)"
proof -
  have r: "calculateRotationChange (recentReadings 100 scenarioB_buffer) < 90"
    by (simp add: recent_scenarioB upt6 sample_def calculateRotationChange_def)
  have l: "10 \<le> length scenarioB_buffer"
    by (simp add: scenarioB_buffer_def olderSamples_def)
  have w: "5 \<le> length (recentReadings 100 scenarioB_buffer)"
    by (simp add: recent_scenarioB)
  have g: "3 \<le> length (highGReadings (recentReadings 100 scenarioB_buffer))"
    by (simp add: recent_scenarioB upt6 sample_def highGReadings_def
        HIGH_G_THRESHOLD_def)
  have f: "length (recentReadings 100 fewInWindow_buffer) < 5"
    by (simp add: recent_fewInWindow)
  have t: "length (highGReadings (recentReadings 100 twoHighG_buffer)) < 3"
    unfolding recent_twoHighG
    by (simp add: twoHighG_buffer_def upt10 sample_def highGReadings_def
        HIGH_G_THRESHOLD_def)
  have s: "length scenarioA_buffer < 10"
    by (simp add: scenarioA_buffer_def)
  have n0: "rotationAlpha (last belowNinety_buffer) - rotationAlpha (hd belowNinety_buffer)
            < 90"
    by (simp add: belowNinety_buffer_def upt_conv_Cons sample_def)
  have "round_double (103762935414616227839 / 1152921504606846976) = 90"
    using round_double_below_90 by simp
  then have n1: "calculateRotationChange (recentReadings 100 belowNinety_buffer) = 90"
    unfolding recent_belowNinety
    by (simp add: belowNinety_buffer_def upt_conv_Cons sample_def
        calculateRotationChange_def)
  have n2: "10 \<le> length belowNinety_buffer"
    "5 \<le> length (recentReadings 100 belowNinety_buffer)"
    by (simp_all add: recent_belowNinety) (simp_all add: belowNinety_buffer_def)
  have n3: "3 \<le> length (highGReadings (recentReadings 100 belowNinety_buffer))"
    unfolding recent_belowNinety
    by (simp add: belowNinety_buffer_def upt_conv_Cons sample_def highGReadings_def
        HIGH_G_THRESHOLD_def)
  have "(16::real) < 4 * 4 + (1 / 2 ^ 30) * (1 / 2 ^ 30) + 0 * 0" by simp
  then have "sqrt 16 < sqrt (4 * 4 + (1 / 2 ^ 30) * (1 / 2 ^ 30) + 0 * 0)"
    by (simp only: real_sqrt_less_iff)
  moreover have "sqrt 16 = 4" by (rule real_sqrt_unique) simp_all
  ultimately have m0: "4 < sqrt (4 * 4 + (1 / 2 ^ 30) * (1 / 2 ^ 30) + 0 * 0)"
    by simp
  have "calculateMagnitude 4 (1 / 1073741824) 0 = 4"
    using calculateMagnitude_barely_above_4 by simp
  then have m1: "length (highGReadings (recentReadings 100 barelyAboveFour_buffer)) < 3"
    unfolding recent_barelyAboveFour
    by (simp add: barelyAboveFour_buffer_def upt10 highGReadings_def
        HIGH_G_THRESHOLD_def)
  from analyzeBuffer_gates [of 100 scenarioB_buffer] r
  have 1: "\<not> analyzeBuffer 100 scenarioB_buffer" by blast
  from analyzeBuffer_gates [of 100 fewInWindow_buffer] f
  have 2: "\<not> analyzeBuffer 100 fewInWindow_buffer" by blast
  from analyzeBuffer_gates [of 100 twoHighG_buffer] t
  have 3: "\<not> analyzeBuffer 100 twoHighG_buffer" by blast
  from analyzeBuffer_gates [of 100 scenarioA_buffer] s
  have 4: "\<not> analyzeBuffer 100 scenarioA_buffer" by blast
  from analyzeBuffer_gates [of 100 belowNinety_buffer] n1 n2 n3
  have 5: "analyzeBuffer 100 belowNinety_buffer" by simp
  from analyzeBuffer_gates [of 100 barelyAboveFour_buffer] m1
  have 6: "\<not> analyzeBuffer 100 barelyAboveFour_buffer" by blast
  from r l w g f t s n0 n1 m0 m1 1 2 3 4 5 6 show ?thesis by blast
qed

text \<open>
  Counterexample to C2 as stated. The six samples of scenario A pass all three gates of
  the specification, yet \<open>analyzeBuffer\<close> returns false; and on ten samples whose
  rotation change is exactly 90 (not exceeding 90) \<open>analyzeBuffer\<close> returns true.
\<close>

theorem gates_spec_counterexample:
  "(gates_spec 100 scenarioA_buffer \<and> \<not> analyzeBuffer 100 scenarioA_buffer)
   \<and> (calculateRotationChange (recentReadings 100 rotation90_buffer) = 90
      \<and> \<not> gates_spec 100 rotation90_buffer \<and> analyzeBuffer 100 rotation90_buffer)"
proof -
  have ra: "recentReadings 100 scenarioA_buffer = scenarioA_buffer"
    by (simp add: scenarioA_buffer_def upt6 recentReadings_def sample_def
        SUSTAINED_DURATION_MS_def)
  have a1: "gates_spec 100 scenarioA_buffer"
    unfolding gates_spec_def ra
    by (simp add: scenarioA_buffer_def upt6 sample_def highGReadings_def
        HIGH_G_THRESHOLD_def calculateRotationChange_def)
  have a2: "\<not> analyzeBuffer 100 scenarioA_buffer"
    by (simp add: analyzeBuffer_def scenarioA_buffer_def)
  have rb: "recentReadings 100 rotation90_buffer = rotation90_buffer"
    by (simp add: rotation90_buffer_def upt10 recentReadings_def sample_def
        SUSTAINED_DURATION_MS_def)
  have b0: "calculateRotationChange rotation90_buffer = 90"
    by (simp add: rotation90_buffer_def upt10 sample_def calculateRotationChange_def)
  have b1: "\<not> gates_spec 100 rotation90_buffer"
    unfolding gates_spec_def rb b0 by simp
  have b2: "analyzeBuffer 100 rotation90_buffer"
    unfolding analyzeBuffer_def rb b0
    by (simp add: rotation90_buffer_def upt10 sample_def highGReadings_def
        HIGH_G_THRESHOLD_def ROTATION_THRESHOLD_def)
  from a1 a2 b0 b1 b2 rb show ?thesis by simp
qed

subsection \<open>The minimum buffer population\<close>

text \<open>
  C10. For every buffer holding fewer than 10 samples in total, \<open>analyzeBuffer\<close>
  returns false, whatever the acceleration and rotation values of the samples.
\<close>

theorem analyzeBuffer_small_buffer:
  "length buffer < 10 \<Longrightarrow> \<not> analyzeBuffer now buffer"
  by (simp add: analyzeBuffer_def)

text \<open>Witness for C10: nine samples inside the window, all at 1000 g, rotation change
  800.\<close>

theorem analyzeBuffer_small_buffer_witness:
  "length (map (\<lambda>k. sample (int k) 1000 (100 * real k)) [0..<9]) < 10
   \<and> \<not> analyzeBuffer 8 (map (\<lambda>k. sample (int k) 1000 (100 * real k)) [0..<9])"
proof -
  have h: "length (map (\<lambda>k. sample (int k) 1000 (100 * real k)) [0..<9]) < 10"
    by simp
  show ?thesis using h analyzeBuffer_small_buffer [OF h, of 8] by simp
qed

subsection \<open>Capacity and eviction order of the buffer\<close>

lemma length_pushReading:
  "length buffer \<le> BUFFER_SIZE \<Longrightarrow> length (pushReading reading buffer) \<le> BUFFER_SIZE"
  by (simp add: pushReading_def Let_def)

lemma length_applyOp:
  "length (sensorBuffer s) \<le> BUFFER_SIZE
   \<Longrightarrow> length (sensorBuffer (applyOp s op)) \<le> BUFFER_SIZE"
  by (cases op)
     (simp_all add: handleMotionEvent_def stopMonitoring_def resetCrashDetection_def Let_def
        length_pushReading split: option.splits)

lemma length_foldl_applyOp:
  "length (sensorBuffer s) \<le> BUFFER_SIZE \<Longrightarrow>
   length (sensorBuffer (foldl applyOp s ops)) \<le> BUFFER_SIZE"
  by (induction ops arbitrary: s) (simp_all add: length_applyOp)

lemma pushReading_full:
  "length buffer = BUFFER_SIZE \<Longrightarrow> pushReading reading buffer = tl buffer @ [reading]"
  by (cases buffer) (simp_all add: pushReading_def BUFFER_SIZE_def)

lemma pushReading_not_full:
  "length buffer < BUFFER_SIZE \<Longrightarrow> pushReading reading buffer = buffer @ [reading]"
  by (simp add: pushReading_def)

text \<open>
  C8. After every sequence of motion events, stops and resets applied to a fresh session
  the buffer holds at most 100 samples; a push into a buffer of exactly 100 samples drops
  the oldest sample (the head) and appends the new one, and a push into a shorter buffer
  only appends.
\<close>

theorem buffer_bounded_fifo:
  "length (sensorBuffer (runOps ops initialFusion)) \<le> 100
   \<and> (length (sensorBuffer s) = 100 \<longrightarrow>
        sensorBuffer (handleMotionEvent tPush tAnalyze
          \<lparr>acceleration = Some acc, rotationRate = Some rot\<rparr> s)
        = tl (sensorBuffer s) @ [mkReading tPush acc rot])
   \<and> (length (sensorBuffer s) < 100 \<longrightarrow>
        sensorBuffer (handleMotionEvent tPush tAnalyze
          \<lparr>acceleration = Some acc, rotationRate = Some rot\<rparr> s)
        = sensorBuffer s @ [mkReading tPush acc rot])"
proof -
  have "length (sensorBuffer initialFusion) \<le> BUFFER_SIZE"
    by (simp add: initialFusion_def)
  then have "length (sensorBuffer (runOps ops initialFusion)) \<le> BUFFER_SIZE"
    unfolding runOps_def by (rule length_foldl_applyOp)
  then show ?thesis
    by (simp add: BUFFER_SIZE_def handleMotionEvent_def Let_def pushReading_full
        pushReading_not_full)
qed

text \<open>Witness for C8: a push into a buffer of 100 samples stamped 0 to 99 evicts the
  sample stamped 0; a push into the empty buffer keeps everything.\<close>

theorem buffer_bounded_fifo_witness:
  "(length (sensorBuffer fullFusion) = 100
    \<and> hd (sensorBuffer fullFusion) = sample 0 0 0
    \<and> sensorBuffer (handleMotionEvent 100 100
          \<lparr>acceleration = Some (Some 1, None, None), rotationRate = Some (None, None, None)\<rparr>
          fullFusion)
       = map (\<lambda>k. sample (int k) 0 0) [1..<100] @ [sample 100 1 0])
   \<and> (length (sensorBuffer initialFusion) < 100
    \<and> sensorBuffer (handleMotionEvent 100 100
          \<lparr>acceleration = Some (Some 1, None, None), rotationRate = Some (None, None, None)\<rparr>
          initialFusion)
       = [sample 100 1 0])"
proof -
  have l: "length (sensorBuffer fullFusion) = 100" by (simp add: fullFusion_def)
  have h: "hd (sensorBuffer fullFusion) = sample 0 0 0"
    by (simp add: fullFusion_def upt_conv_Cons)
  have t: "tl (sensorBuffer fullFusion) = map (\<lambda>k. sample (int k) 0 0) [1..<100]"
    by (simp add: fullFusion_def upt_conv_Cons)
  have m: "mkReading 100 (Some 1, None, None) (None, None, None) = sample 100 1 0"
    by (simp add: mkReading_def orZero_def sample_def)
  have e: "length (sensorBuffer initialFusion) < 100" "sensorBuffer initialFusion = []"
    by (simp_all add: initialFusion_def)
  from buffer_bounded_fifo
    [of "[]" fullFusion 100 100 "(Some 1, None, None)" "(None, None, None)"] l h t m
  have 1: "sensorBuffer (handleMotionEvent 100 100
          \<lparr>acceleration = Some (Some 1, None, None), rotationRate = Some (None, None, None)\<rparr>
          fullFusion)
       = map (\<lambda>k. sample (int k) 0 0) [1..<100] @ [sample 100 1 0]"
    by simp
  from buffer_bounded_fifo
    [of "[]" initialFusion 100 100 "(Some 1, None, None)" "(None, None, None)"] e m
  have 2: "sensorBuffer (handleMotionEvent 100 100
          \<lparr>acceleration = Some (Some 1, None, None), rotationRate = Some (None, None, None)\<rparr>
          initialFusion)
       = [sample 100 1 0]"
    by simp
  from l h e(1) 1 2 show ?thesis by simp
qed

subsection \<open>The window read by the detector\<close>

lemma recentReadings_suffix:
  "sorted (map timestamp buffer) \<Longrightarrow> suffix (recentReadings now buffer) buffer"
proof (induction buffer)
  case Nil
  then show ?case by (simp add: recentReadings_def)
next
  case (Cons r rs)
  show ?case
  proof (cases "now - timestamp r \<le> SUSTAINED_DURATION_MS")
    case True
    with Cons.prems have "\<forall>x \<in> set rs. now - timestamp x \<le> SUSTAINED_DURATION_MS"
      by auto
    with True have "recentReadings now (r # rs) = r # rs"
      by (simp add: recentReadings_def)
    then show ?thesis by simp
  next
    case False
    then have "recentReadings now (r # rs) = recentReadings now rs"
      by (simp add: recentReadings_def)
    moreover from Cons have "suffix (recentReadings now rs) rs" by simp
    ultimately show ?thesis by (simp add: suffix_ConsI)
  qed
qed

lemma recentReadings_dropWhile:
  "sorted (map timestamp buffer) \<Longrightarrow>
   recentReadings now buffer = dropWhile (\<lambda>r. 100 < now - timestamp r) buffer"
proof (induction buffer)
  case Nil
  then show ?case by (simp add: recentReadings_def)
next
  case (Cons r rs)
  show ?case
  proof (cases "now - timestamp r \<le> 100")
    case True
    with Cons.prems have "\<forall>x \<in> set rs. now - timestamp x \<le> 100"
      by auto
    with True show ?thesis
      by (simp add: recentReadings_def SUSTAINED_DURATION_MS_def)
  next
    case False
    then have "recentReadings now (r # rs) = recentReadings now rs"
      by (simp add: recentReadings_def SUSTAINED_DURATION_MS_def)
    moreover from Cons have
      "recentReadings now rs = dropWhile (\<lambda>r. 100 < now - timestamp r) rs" by simp
    ultimately show ?thesis using False by simp
  qed
qed

text \<open>
  C9 (as amended). On every buffer for which \<open>analyzeBuffer\<close> reads a window (at
  least 10 samples), the window is exactly the samples of the buffer whose timestamp is
  within the fixed 100 ms of the time \<open>now\<close> at which the analysis runs, in arrival
  order; when the timestamps of the buffer are non-decreasing it is exactly the buffer
  without its leading samples older than that, hence a suffix; and when \<open>now\<close> equals
  the timestamp of the most recent sample it is the window of duration 100 measured
  from that sample.
\<close>

theorem recentReadings_window:
  assumes "10 \<le> length buffer"
  shows
    "recentReadings now buffer = filter (\<lambda>r. now - timestamp r \<le> 100) buffer
     \<and> (sorted (map timestamp buffer) \<longrightarrow>
          recentReadings now buffer = dropWhile (\<lambda>r. 100 < now - timestamp r) buffer
          \<and> suffix (recentReadings now buffer) buffer)
     \<and> (now = timestamp (last buffer) \<longrightarrow>
          recentReadings now buffer = window_spec 100 buffer)"
proof -
  from assms have ne: "buffer \<noteq> []" by auto
  have a: "recentReadings now buffer = filter (\<lambda>r. now - timestamp r \<le> 100) buffer"
    by (simp add: recentReadings_def SUSTAINED_DURATION_MS_def)
  have c: "sorted (map timestamp buffer) \<longrightarrow>
          recentReadings now buffer = dropWhile (\<lambda>r. 100 < now - timestamp r) buffer
          \<and> suffix (recentReadings now buffer) buffer"
    using recentReadings_dropWhile [of buffer now] recentReadings_suffix [of buffer now]
    by blast
  have d: "now = timestamp (last buffer) \<longrightarrow>
        recentReadings now buffer = window_spec 100 buffer"
    using ne by (simp add: recentReadings_def window_spec_def SUSTAINED_DURATION_MS_def)
  from a c d show ?thesis by blast
qed

lemma tenSamples_facts:
  "10 \<le> length tenSamples" "sorted (map timestamp tenSamples)"
  "timestamp (last tenSamples) = 100"
  by (simp_all add: tenSamples_def sample_def)

lemma recent_tenSamples_101: "recentReadings 101 tenSamples = tl tenSamples"
  by (simp add: tenSamples_def sample_def recentReadings_def SUSTAINED_DURATION_MS_def)

lemma window_spec_tenSamples: "window_spec 100 tenSamples = tenSamples"
  by (simp add: tenSamples_def sample_def window_spec_def)

text \<open>Witness for C9 as amended: ten samples stamped from 0 to 100, analysed at the
  time of the last one and one millisecond later.\<close>

theorem recentReadings_window_witness:
  "10 \<le> length tenSamples \<and> sorted (map timestamp tenSamples)
   \<and> 100 = timestamp (last tenSamples)
   \<and> recentReadings 100 tenSamples = window_spec 100 tenSamples
   \<and> recentReadings 100 tenSamples = tenSamples
   \<and> suffix (recentReadings 101 tenSamples) tenSamples
   \<and> recentReadings 101 tenSamples = tl tenSamples"
proof -
  note f = tenSamples_facts
  from recentReadings_window [OF f(1), of 100] f(3) [symmetric]
  have 1: "recentReadings 100 tenSamples = window_spec 100 tenSamples" by blast
  from recentReadings_window [OF f(1), of 101] f(2)
  have 2: "suffix (recentReadings 101 tenSamples) tenSamples" by blast
  from f 1 2 show ?thesis
    by (simp add: recent_tenSamples_101 window_spec_tenSamples)
qed

text \<open>
  Counterexample to C9 as stated: the ten samples analysed one millisecond after the
  last one was stamped. The window measured from the most recent sample is the whole
  buffer and passes every gate with rotation change 120; the window the detector reads
  lacks the first sample, its rotation change is 70, and \<open>analyzeBuffer\<close> returns
  false.
\<close>

theorem window_spec_counterexample:
  "length tenSamples = 10
   \<and> window_spec 100 tenSamples = tenSamples
   \<and> recentReadings 101 tenSamples = tl tenSamples
   \<and> recentReadings 101 tenSamples \<noteq> window_spec 100 tenSamples
   \<and> 5 \<le> length (window_spec 100 tenSamples)
   \<and> 3 \<le> length (highGReadings (window_spec 100 tenSamples))
   \<and> calculateRotationChange (window_spec 100 tenSamples) = 120
   \<and> calculateRotationChange (recentReadings 101 tenSamples) = 70
   \<and> \<not> analyzeBuffer 101 tenSamples"
proof -
  have r: "calculateRotationChange (tl tenSamples) = 70"
    by (simp add: tenSamples_def sample_def calculateRotationChange_def)
  have "\<not> analyzeBuffer 101 tenSamples"
    unfolding analyzeBuffer_def recent_tenSamples_101 r
    by (simp add: ROTATION_THRESHOLD_def)
  moreover have "tl tenSamples \<noteq> tenSamples"
    by (simp add: tenSamples_def)
  moreover have "calculateRotationChange tenSamples = 120"
    by (simp add: tenSamples_def sample_def calculateRotationChange_def)
  moreover have "3 \<le> length (highGReadings tenSamples)"
    by (simp add: tenSamples_def sample_def highGReadings_def HIGH_G_THRESHOLD_def)
  moreover have "length tenSamples = 10" by (simp add: tenSamples_def)
  ultimately show ?thesis
    by (simp add: recent_tenSamples_101 window_spec_tenSamples r)
qed

section \<open>Properties of evidence capture and sealing\<close>

lemma decimal_1650: "decimal 1650 = ''1650''"
  by code_simp

lemma wholeNumber_1650: "wholeNumberToString 1650 = ''1650''"
  by (simp add: wholeNumberToString_def decimal_1650)


lemma examplePacket_string_length:
  "length (JSON_stringify wholeNumberToString (packetJson examplePacket)) = 292"
  by (simp add: JSON_stringify_def packetJson_def examplePacket_def nullable_def
      QuoteJSONString_def quoteChar_def join_def wholeNumber_1650 Let_def)

lemma packetWithoutHash_seal:
  "hash p = None \<Longrightarrow> packetWithoutHash (sealPacket digest fmt p) = p"
  by (simp add: packetWithoutHash_def sealPacket_def Let_def)

lemma generateHash_spec:
  "generateHash digest s =
     (case sha256_hex_spec digest s of Some h \<Rightarrow> h | None \<Rightarrow> ''hash_unavailable'')"
  by (simp add: generateHash_def sha256_hex_spec_def split: digest_result.splits)

lemma captureEvidence_sealed:
  "captureEvidence env = Inr tp \<Longrightarrow>
   hash tp = Some (generateHash (subtleDigest env)
     (JSON_stringify (numberToString env) (packetJson (packetWithoutHash tp))))"
  by (auto simp add: captureEvidence_def sealPacket_def packetWithoutHash_def Let_def
      split: sum.splits)

text \<open>
  C3 (as amended). Sealing an unsealed record leaves every field but \<open>hash\<close> as it
  was; the attached hash is the hexadecimal SHA-256 digest of the UTF-8 encoding of the
  serialisation of the record without its hash field when the digest primitive returns
  one, and the string \<open>hash_unavailable\<close> when the primitive throws. Sealing equal
  field values yields equal hashes, and the packet returned by \<open>captureEvidence\<close> is
  sealed in this way.
\<close>

theorem seal_digest:
  "(hash p = None \<longrightarrow>
      packetWithoutHash (sealPacket digest fmt p) = p
      \<and> hash (sealPacket digest fmt p) =
          Some (case sha256_hex_spec digest
                       (JSON_stringify fmt
                          (packetJson (packetWithoutHash (sealPacket digest fmt p)))) of
                  Some h \<Rightarrow> h
                | None \<Rightarrow> ''hash_unavailable''))
   \<and> (hash p = None \<and> hash q = None \<and> eventId q = eventId p
        \<and> packetTimestamp q = packetTimestamp p \<and> location q = location p
        \<and> evidence q = evidence p \<and> metadata q = metadata p
      \<longrightarrow> hash (sealPacket digest fmt q) = hash (sealPacket digest fmt p))
   \<and> (captureEvidence env = Inr tp \<longrightarrow>
        hash tp =
          Some (case sha256_hex_spec (subtleDigest env)
                       (JSON_stringify (numberToString env)
                          (packetJson (packetWithoutHash tp))) of
                  Some h \<Rightarrow> h
                | None \<Rightarrow> ''hash_unavailable''))"
proof -
  have a: "hash p = None \<longrightarrow>
      packetWithoutHash (sealPacket digest fmt p) = p
      \<and> hash (sealPacket digest fmt p) =
          Some (case sha256_hex_spec digest
                       (JSON_stringify fmt
                          (packetJson (packetWithoutHash (sealPacket digest fmt p)))) of
                  Some h \<Rightarrow> h
                | None \<Rightarrow> ''hash_unavailable'')"
    by (simp add: packetWithoutHash_seal)
       (simp add: sealPacket_def Let_def generateHash_spec)
  have b: "hash p = None \<and> hash q = None \<and> eventId q = eventId p
        \<and> packetTimestamp q = packetTimestamp p \<and> location q = location p
        \<and> evidence q = evidence p \<and> metadata q = metadata p
      \<longrightarrow> hash (sealPacket digest fmt q) = hash (sealPacket digest fmt p)"
  proof
    assume h: "hash p = None \<and> hash q = None \<and> eventId q = eventId p
        \<and> packetTimestamp q = packetTimestamp p \<and> location q = location p
        \<and> evidence q = evidence p \<and> metadata q = metadata p"
    then have "q = p" by (cases p, cases q) simp
    then show "hash (sealPacket digest fmt q) = hash (sealPacket digest fmt p)" by simp
  qed
  have c: "captureEvidence env = Inr tp \<longrightarrow>
        hash tp =
          Some (case sha256_hex_spec (subtleDigest env)
                       (JSON_stringify (numberToString env)
                          (packetJson (packetWithoutHash tp))) of
                  Some h \<Rightarrow> h
                | None \<Rightarrow> ''hash_unavailable'')"
  proof
    assume "captureEvidence env = Inr tp"
    from captureEvidence_sealed [OF this]
    show "hash tp =
          Some (case sha256_hex_spec (subtleDigest env)
                       (JSON_stringify (numberToString env)
                          (packetJson (packetWithoutHash tp))) of
                  Some h \<Rightarrow> h
                | None \<Rightarrow> ''hash_unavailable'')"
      by (simp add: generateHash_spec)
  qed
  from a b c show ?thesis by blast
qed

lemma captureEvidence_example:
  "captureEvidence exampleEnv = Inr (sealPacket stubDigest wholeNumberToString examplePacket)"
  by (simp add: captureEvidence_def exampleEnv_def examplePacket_def capturePhoto_def
      getCurrentLocation_def generateAudioSignature_def Let_def)

lemma stub_hash_example:
  "sha256_hex_spec stubDigest (JSON_stringify wholeNumberToString (packetJson examplePacket))
   = Some ''0aff24''"
  by (simp add: sha256_hex_spec_def stubDigest_def TextEncoder_encode_def
      examplePacket_string_length padStart_def toString16_def hexDigit_def)

text \<open>
  Witness for C3 as amended: the example packet, as \<open>captureEvidence\<close> builds it,
  sealed with the stand-in digest.
\<close>

theorem seal_digest_witness:
  "hash examplePacket = None
   \<and> captureEvidence exampleEnv = Inr (sealPacket stubDigest wholeNumberToString examplePacket)
   \<and> packetWithoutHash (sealPacket stubDigest wholeNumberToString examplePacket) = examplePacket
   \<and> hash (sealPacket stubDigest wholeNumberToString examplePacket) = Some ''0aff24''"
proof -
  have h: "hash examplePacket = None" by (simp add: examplePacket_def)
  from seal_digest [of examplePacket stubDigest wholeNumberToString examplePacket
      exampleEnv "sealPacket stubDigest wholeNumberToString examplePacket"] h
  have "packetWithoutHash (sealPacket stubDigest wholeNumberToString examplePacket)
          = examplePacket"
    and "hash (sealPacket stubDigest wholeNumberToString examplePacket) =
          Some (case sha256_hex_spec stubDigest
                       (JSON_stringify wholeNumberToString
                          (packetJson (packetWithoutHash
                             (sealPacket stubDigest wholeNumberToString examplePacket)))) of
                  Some h \<Rightarrow> h
                | None \<Rightarrow> ''hash_unavailable'')"
    by simp_all
  then show ?thesis
    using h captureEvidence_example by (simp add: stub_hash_example)
qed

text \<open>
  Counterexample to C3 as stated: where the digest primitive throws, the attached hash
  is \<open>hash_unavailable\<close>, and there is no digest of the serialisation for it to
  equal.
\<close>

theorem seal_digest_counterexample:
  "hash (sealPacket noSubtleCrypto wholeNumberToString examplePacket) = Some ''hash_unavailable''
   \<and> sha256_hex_spec noSubtleCrypto
        (JSON_stringify wholeNumberToString (packetJson examplePacket)) = None
   \<and> hash (sealPacket noSubtleCrypto wholeNumberToString examplePacket)
       \<noteq> sha256_hex_spec noSubtleCrypto
            (JSON_stringify wholeNumberToString (packetJson examplePacket))"
  by (simp add: sealPacket_def Let_def generateHash_def sha256_hex_spec_def noSubtleCrypto_def)

lemma compact_second_char:
  "JSON_stringify fmt (packetJson p) ! Suc 0 = CHR 0x22"
  by (simp add: JSON_stringify_def packetJson_def QuoteJSONString_def join_def Let_def)

lemma indented_second_char:
  "JSON_stringify_indent2 fmt (packetJson p) ! Suc 0 = CHR 0x0A"
  by (simp add: JSON_stringify_indent2_def packetJson_def Let_def)

text \<open>
  C4 (fails on the code). The hash stored at sealing time is the digest of the compact
  serialisation \<open>JSON.stringify(trustPacket)\<close>; the string that
  \<open>handleCopyVerification\<close> produces for the same packet is the serialisation with
  an indentation of two spaces, and the two strings differ for every packet: the second
  character is a double quote in the first and a line feed in the second.
\<close>

theorem verification_string_differs:
  "hash (sealPacket digest fmt p)
     = Some (generateHash digest (JSON_stringify fmt (packetJson p)))
   \<and> handleCopyVerification fmt (Some (sealPacket digest fmt p))
     = Some (JSON_stringify_indent2 fmt (packetJson (packetWithoutHash p)))
   \<and> handleCopyVerification fmt (Some (sealPacket digest fmt p))
     \<noteq> Some (JSON_stringify fmt (packetJson p))"
proof -
  have a: "hash (sealPacket digest fmt p)
     = Some (generateHash digest (JSON_stringify fmt (packetJson p)))"
    by (simp add: sealPacket_def Let_def)
  have b: "handleCopyVerification fmt (Some (sealPacket digest fmt p))
     = Some (JSON_stringify_indent2 fmt (packetJson (packetWithoutHash p)))"
    by (simp add: handleCopyVerification_def sealPacket_def packetWithoutHash_def Let_def)
  have "JSON_stringify_indent2 fmt (packetJson (packetWithoutHash p))
          \<noteq> JSON_stringify fmt (packetJson p)"
  proof
    assume "JSON_stringify_indent2 fmt (packetJson (packetWithoutHash p))
          = JSON_stringify fmt (packetJson p)"
    then have "JSON_stringify_indent2 fmt (packetJson (packetWithoutHash p)) ! Suc 0
          = JSON_stringify fmt (packetJson p) ! Suc 0" by simp
    then show False
      by (simp add: compact_second_char indented_second_char)
  qed
  with a b show ?thesis by simp
qed

text \<open>
  C7. \<open>captureEvidence\<close> fails exactly when the image acquisition fails. When the
  photo is taken, a failed geolocation gives a sealed packet whose three location fields
  are null, and a failed audio fingerprint gives a sealed packet whose audio signature is
  \<open>audio_unavailable\<close>.
\<close>

theorem capture_failure_semantics:
  "(isl (captureEvidence env) \<longleftrightarrow> photoFailed (photoOutcome env))
   \<and> (\<not> photoFailed (photoOutcome env) \<and> geoOutcome env \<in> {NoGeolocation, GeolocationError}
        \<longrightarrow> \<not> isl (captureEvidence env)
            \<and> location (projr (captureEvidence env)) = nullLocation
            \<and> hash (projr (captureEvidence env)) \<noteq> None)
   \<and> (\<not> photoFailed (photoOutcome env) \<and> audioOutcome env = AudioUnavailable
        \<longrightarrow> \<not> isl (captureEvidence env)
            \<and> audioSignature (evidence (projr (captureEvidence env))) = ''audio_unavailable''
            \<and> hash (projr (captureEvidence env)) \<noteq> None)"
proof (cases "photoOutcome env")
  case (PhotoTaken d)
  then show ?thesis
    by (auto simp add: captureEvidence_def capturePhoto_def photoFailed_def sealPacket_def
        getCurrentLocation_def generateAudioSignature_def nullLocation_def Let_def)
qed (simp_all add: captureEvidence_def capturePhoto_def photoFailed_def)

text \<open>
  Witness for C7: without a camera the capture fails; with a photo, a geolocation error
  and no audio, the packet carries null locations and the sentinel.
\<close>

theorem capture_failure_semantics_witness:
  "(photoFailed (photoOutcome noCameraEnv)
      \<and> captureEvidence noCameraEnv = Inl ''Camera access denied or not available'')
   \<and> (\<not> photoFailed (photoOutcome exampleEnv)
      \<and> geoOutcome exampleEnv = GeolocationError
      \<and> audioOutcome exampleEnv = AudioUnavailable
      \<and> \<not> isl (captureEvidence exampleEnv)
      \<and> location (projr (captureEvidence exampleEnv)) = nullLocation
      \<and> audioSignature (evidence (projr (captureEvidence exampleEnv))) = ''audio_unavailable'')"
proof -
  have f: "photoFailed (photoOutcome noCameraEnv)"
    by (simp add: noCameraEnv_def photoFailed_def)
  have c: "captureEvidence noCameraEnv = Inl ''Camera access denied or not available''"
    by (simp add: noCameraEnv_def captureEvidence_def capturePhoto_def)
  have p: "\<not> photoFailed (photoOutcome exampleEnv)"
    by (simp add: exampleEnv_def photoFailed_def)
  have g: "geoOutcome exampleEnv = GeolocationError"
    by (simp add: exampleEnv_def)
  have u: "audioOutcome exampleEnv = AudioUnavailable"
    by (simp add: exampleEnv_def)
  from capture_failure_semantics [of noCameraEnv] f
  have 1: "isl (captureEvidence noCameraEnv)" by simp
  from capture_failure_semantics [of exampleEnv] p g u
  have 2: "\<not> isl (captureEvidence exampleEnv)
      \<and> location (projr (captureEvidence exampleEnv)) = nullLocation
      \<and> audioSignature (evidence (projr (captureEvidence exampleEnv))) = ''audio_unavailable''"
    by simp
  from f c p g u 1 2 show ?thesis by simp
qed

section \<open>Properties of the detection state machine\<close>

lemmas sm_defs = dispatch_def crashDetectionEffect_def setAppState_def
  handleEmergencyButton_def handleConfirmCrash_def handleCancelAlert_def handleReset_def
  countdownTimer_def resetCrashDetection_def Let_def

lemma dispatch_invariant:
  assumes "(appState b = ARMED \<longrightarrow> \<not> isCrashDetected (fusionState (sensor b)))
           \<and> (appState b = CONFIRMING \<longrightarrow> 1 \<le> countdown b \<and> countdown b \<le> 5)"
  shows "(appState (dispatch e b) = ARMED \<longrightarrow> \<not> isCrashDetected (fusionState (sensor (dispatch e b))))
           \<and> (appState (dispatch e b) = CONFIRMING \<longrightarrow>
                1 \<le> countdown (dispatch e b) \<and> countdown (dispatch e b) \<le> 5)"
  using assms by (cases e) (auto simp add: sm_defs)

lemma reachable_invariant:
  "reachable b \<Longrightarrow>
     (appState b = ARMED \<longrightarrow> \<not> isCrashDetected (fusionState (sensor b)))
     \<and> (appState b = CONFIRMING \<longrightarrow> 1 \<le> countdown b \<and> countdown b \<le> 5)"
proof (induction rule: reachable.induct)
  case reachable_init
  then show ?case by (simp add: initialBodaBox_def initialFusion_def)
next
  case (reachable_step b e)
  from reachable_step.IH show ?case by (rule dispatch_invariant)
qed

lemma armed_step:
  assumes "appState b = ARMED" and "\<not> isCrashDetected (fusionState (sensor b))"
  shows "appState (dispatch e b)
         = (if e = EmergencyButton \<or> positiveDetection e b then CONFIRMING else ARMED)"
    and "appState (dispatch e b) = CONFIRMING \<longrightarrow> countdown (dispatch e b) = 5"
  using assms
  by (cases e; auto simp add: sm_defs positiveDetection_def handleMotionEvent_def
        split: option.splits)+

lemma confirming_step:
  assumes "appState b = CONFIRMING"
  shows "appState (dispatch e b)
         = (if e = CancelButton then ARMED
            else if e = CountdownTimer \<and> countdown b = 1 then TRIGGERED
            else CONFIRMING)"
  using assms by (cases e) (auto simp add: sm_defs)

lemma triggered_step:
  assumes "appState b = TRIGGERED"
  shows "appState (dispatch e b) = (if e = ResetButton then ARMED else TRIGGERED)"
  using assms by (cases e) (auto simp add: sm_defs)

lemma tick_confirming:
  assumes "appState b = CONFIRMING" and "countdown b = Suc (Suc n)"
  shows "appState (dispatch CountdownTimer b) = CONFIRMING"
    and "countdown (dispatch CountdownTimer b) = Suc n"
  using assms by (auto simp add: sm_defs)

lemma tick_last:
  assumes "appState b = CONFIRMING" and "countdown b = Suc 0"
  shows "appState (dispatch CountdownTimer b) = TRIGGERED"
  using assms by (auto simp add: sm_defs)

lemma ticks_confirming:
  assumes "appState b = CONFIRMING" and "countdown b = k + Suc n"
  shows "appState (runEvents (replicate k CountdownTimer) b) = CONFIRMING
         \<and> countdown (runEvents (replicate k CountdownTimer) b) = Suc n"
  using assms
proof (induction k arbitrary: b)
  case 0
  then show ?case by (simp add: runEvents_def)
next
  case (Suc k)
  from Suc.prems have c: "countdown b = Suc (Suc (k + n))" by simp
  from tick_confirming [OF Suc.prems(1) c]
  have "appState (dispatch CountdownTimer b) = CONFIRMING"
    "countdown (dispatch CountdownTimer b) = k + Suc n" by simp_all
  from Suc.IH [OF this] show ?case by (simp add: runEvents_def)
qed

lemma countdown_five:
  assumes "appState b = CONFIRMING" and "countdown b = 5"
  shows "k < 5 \<longrightarrow> appState (runEvents (replicate k CountdownTimer) b) = CONFIRMING"
    and "appState (runEvents (replicate 5 CountdownTimer) b) = TRIGGERED"
proof -
  show "k < 5 \<longrightarrow> appState (runEvents (replicate k CountdownTimer) b) = CONFIRMING"
  proof
    assume "k < 5"
    then have "countdown b = k + Suc (4 - k)" using assms(2) by simp
    from ticks_confirming [OF assms(1) this] 
    show "appState (runEvents (replicate k CountdownTimer) b) = CONFIRMING" by simp
  qed
  have "countdown b = 4 + Suc 0" using assms(2) by simp
  from ticks_confirming [OF assms(1) this]
  have 4: "appState (runEvents (replicate 4 CountdownTimer) b) = CONFIRMING"
    "countdown (runEvents (replicate 4 CountdownTimer) b) = Suc 0" by simp_all
  have "replicate 5 CountdownTimer = replicate 4 CountdownTimer @ [CountdownTimer]"
    by (simp add: numeral_eq_Suc replicate_append_same)
  then have "runEvents (replicate 5 CountdownTimer) b
      = dispatch CountdownTimer (runEvents (replicate 4 CountdownTimer) b)"
    by (simp add: runEvents_def)
  with tick_last [OF 4] show "appState (runEvents (replicate 5 CountdownTimer) b) = TRIGGERED"
    by simp
qed

text \<open>
  C5. From every reachable state and for every event: \<open>ARMED\<close> is left only for
  \<open>CONFIRMING\<close>, and exactly on the emergency button or a positive detection, and
  the countdown then stands at 5, stays in \<open>CONFIRMING\<close> for fewer than five timer
  ticks and reaches \<open>TRIGGERED\<close> on the fifth; \<open>CONFIRMING\<close> is left for
  \<open>ARMED\<close> exactly on cancel and for \<open>TRIGGERED\<close> exactly when the timer
  takes the countdown from 1 to 0; \<open>TRIGGERED\<close> is left only for \<open>ARMED\<close>,
  exactly on reset; a motion event, whatever the detector says, leaves \<open>CONFIRMING\<close>
  and \<open>TRIGGERED\<close> unchanged.
\<close>

theorem state_machine_transitions:
  assumes "reachable b"
  shows
    "(appState b = ARMED \<longrightarrow>
        appState (dispatch e b)
          = (if e = EmergencyButton \<or> positiveDetection e b then CONFIRMING else ARMED)
        \<and> (appState (dispatch e b) = CONFIRMING \<longrightarrow>
             countdown (dispatch e b) = 5
             \<and> (\<forall>k < 5. appState (runEvents (replicate k CountdownTimer) (dispatch e b))
                          = CONFIRMING)
             \<and> appState (runEvents (replicate 5 CountdownTimer) (dispatch e b)) = TRIGGERED))
     \<and> (appState b = CONFIRMING \<longrightarrow>
        1 \<le> countdown b \<and> countdown b \<le> 5
        \<and> appState (dispatch e b)
          = (if e = CancelButton then ARMED
             else if e = CountdownTimer \<and> countdown b = 1 then TRIGGERED
             else CONFIRMING))
     \<and> (appState b = TRIGGERED \<longrightarrow>
        appState (dispatch e b) = (if e = ResetButton then ARMED else TRIGGERED))
     \<and> (appState b \<noteq> ARMED \<longrightarrow>
        appState (dispatch (MotionEvent tPush tAnalyze event) b) = appState b)"
proof -
  note inv = reachable_invariant [OF assms]
  have a: "appState b = ARMED \<longrightarrow>
        appState (dispatch e b)
          = (if e = EmergencyButton \<or> positiveDetection e b then CONFIRMING else ARMED)
        \<and> (appState (dispatch e b) = CONFIRMING \<longrightarrow>
             countdown (dispatch e b) = 5
             \<and> (\<forall>k < 5. appState (runEvents (replicate k CountdownTimer) (dispatch e b))
                          = CONFIRMING)
             \<and> appState (runEvents (replicate 5 CountdownTimer) (dispatch e b)) = TRIGGERED)"
  proof
    assume ar: "appState b = ARMED"
    with inv have nf: "\<not> isCrashDetected (fusionState (sensor b))" by simp
    note st = armed_step [OF ar nf, of e]
    show "appState (dispatch e b)
          = (if e = EmergencyButton \<or> positiveDetection e b then CONFIRMING else ARMED)
        \<and> (appState (dispatch e b) = CONFIRMING \<longrightarrow>
             countdown (dispatch e b) = 5
             \<and> (\<forall>k < 5. appState (runEvents (replicate k CountdownTimer) (dispatch e b))
                          = CONFIRMING)
             \<and> appState (runEvents (replicate 5 CountdownTimer) (dispatch e b)) = TRIGGERED)"
      using st countdown_five [of "dispatch e b"] by blast
  qed
  have c: "appState b = CONFIRMING \<longrightarrow>
        1 \<le> countdown b \<and> countdown b \<le> 5
        \<and> appState (dispatch e b)
          = (if e = CancelButton then ARMED
             else if e = CountdownTimer \<and> countdown b = 1 then TRIGGERED
             else CONFIRMING)"
    using inv confirming_step [of b e] by blast
  have t: "appState b = TRIGGERED \<longrightarrow>
        appState (dispatch e b) = (if e = ResetButton then ARMED else TRIGGERED)"
    using triggered_step [of b e] by blast
  have m: "appState b \<noteq> ARMED \<longrightarrow>
        appState (dispatch (MotionEvent tPush tAnalyze event) b) = appState b"
    by (cases "appState b") (simp_all add: confirming_step triggered_step)
  from a c t m show ?thesis by blast
qed


lemma reachable_runEvents: "reachable b \<Longrightarrow> reachable (runEvents es b)"
proof (induction es arbitrary: b)
  case Nil
  then show ?case by (simp add: runEvents_def)
next
  case (Cons e es)
  from Cons.prems have "reachable (dispatch e b)" by (rule reachable_step)
  from Cons.IH [OF this] show ?case by (simp add: runEvents_def)
qed

lemma upt9: "[0..<9] = [0,1,2,3,4,5,6,7,8]"
  by (simp add: upt_rec)

lemma armedBox_value:
  "appState armedBox = ARMED
   \<and> sensorBuffer (sensor armedBox) = map (\<lambda>k. sample (10 * int k) 5 0) [0..<9]
   \<and> \<not> isCrashDetected (fusionState (sensor armedBox))"
  by (simp add: armedBox_def nineSampleEvents_def upt9 runEvents_def initialBodaBox_def
      initialFusion_def dispatch_def crashDetectionEffect_def handleMotionEvent_def
      pushReading_def mkReading_def orZero_def sample_def BUFFER_SIZE_def
      analyzeBuffer_def Let_def)

lemma positiveDetection_crashEvent: "positiveDetection crashEvent armedBox"
  by (simp add: positiveDetection_def crashEvent_def armedBox_value upt9
      pushReading_def mkReading_def orZero_def sample_def BUFFER_SIZE_def
      analyzeBuffer_def recentReadings_def SUSTAINED_DURATION_MS_def highGReadings_def
      HIGH_G_THRESHOLD_def calculateRotationChange_def ROTATION_THRESHOLD_def)

text \<open>
  Witness for C5: nine quiet pushes, a tenth push that the detector accepts, five timer
  ticks, and a reset.
\<close>

theorem state_machine_transitions_witness:
  "reachable armedBox \<and> appState armedBox = ARMED
   \<and> positiveDetection crashEvent armedBox
   \<and> appState (dispatch crashEvent armedBox) = CONFIRMING
   \<and> appState (dispatch EmergencyButton armedBox) = CONFIRMING
   \<and> appState (dispatch CancelButton armedBox) = ARMED
   \<and> reachable confirmingBox \<and> appState confirmingBox = CONFIRMING
   \<and> countdown confirmingBox = 5
   \<and> appState (dispatch CancelButton confirmingBox) = ARMED
   \<and> appState (dispatch crashEvent confirmingBox) = CONFIRMING
   \<and> appState (dispatch CountdownTimer confirmingBox) = CONFIRMING
   \<and> appState (runEvents (replicate 4 CountdownTimer) confirmingBox) = CONFIRMING
   \<and> reachable triggeredBox \<and> appState triggeredBox = TRIGGERED
   \<and> appState (dispatch crashEvent triggeredBox) = TRIGGERED
   \<and> appState (dispatch EmergencyButton triggeredBox) = TRIGGERED
   \<and> appState (dispatch ResetButton triggeredBox) = ARMED"
proof -
  have r1: "reachable armedBox"
    unfolding armedBox_def by (rule reachable_runEvents) (rule reachable_init)
  then have r2: "reachable confirmingBox"
    unfolding confirmingBox_def by (rule reachable_step)
  then have r3: "reachable triggeredBox"
    unfolding triggeredBox_def by (rule reachable_runEvents)
  have a: "appState armedBox = ARMED" by (simp add: armedBox_value)
  note p = positiveDetection_crashEvent
  from state_machine_transitions [OF r1, of crashEvent] a p
  have c: "appState confirmingBox = CONFIRMING" "countdown confirmingBox = 5"
    "appState (runEvents (replicate 4 CountdownTimer) confirmingBox) = CONFIRMING"
    "appState triggeredBox = TRIGGERED"
    by (simp_all add: confirmingBox_def triggeredBox_def)
  from state_machine_transitions [OF r1, of EmergencyButton] a
  have a1: "appState (dispatch EmergencyButton armedBox) = CONFIRMING" by simp
  have np: "\<not> positiveDetection CancelButton armedBox"
    by (simp add: positiveDetection_def)
  from state_machine_transitions [OF r1, of CancelButton] a np
  have a2: "appState (dispatch CancelButton armedBox) = ARMED" by simp
  from state_machine_transitions [OF r2, of CancelButton] c(1)
  have c1: "appState (dispatch CancelButton confirmingBox) = ARMED" by simp
  from state_machine_transitions [OF r2, of crashEvent] c(1)
  have c2: "appState (dispatch crashEvent confirmingBox) = CONFIRMING"
    by (simp add: crashEvent_def)
  from state_machine_transitions [OF r2, of CountdownTimer] c(1,2)
  have c3: "appState (dispatch CountdownTimer confirmingBox) = CONFIRMING" by simp
  from state_machine_transitions [OF r3, of crashEvent] c(4)
  have t1: "appState (dispatch crashEvent triggeredBox) = TRIGGERED"
    by (simp add: crashEvent_def)
  from state_machine_transitions [OF r3, of EmergencyButton] c(4)
  have t2: "appState (dispatch EmergencyButton triggeredBox) = TRIGGERED" by simp
  from state_machine_transitions [OF r3, of ResetButton] c(4)
  have t3: "appState (dispatch ResetButton triggeredBox) = ARMED" by simp
  from r1 r2 r3 a p c a1 a2 c1 c2 c3 t1 t2 t3 show ?thesis
    by (simp add: confirmingBox_def)
qed

section \<open>Properties of the durability queue\<close>

lemma stuckStorage_value: "stuckStorage = Some [smsItem]"
  by (simp add: stuckStorage_def addToQueue_def getQueue_def smsItem_def Let_def)

lemma processQueue_stuck:
  "processQueue True neverSends (Some [smsItem])
   = (Some [smsItem],
      \<lparr>memoryQueue = [smsItem\<lparr>retryCount := 1\<rparr>], processedIds = [],
       attempted = [smsItem], removedAfterRetries = []\<rparr>)"
  by (simp add: processQueue_def getQueue_def processItems_def processItem_def emptyLog_def
      neverSends_def smsItem_def Let_def)

lemma drains_stuck:
  "drains n neverSends (Some [smsItem]) = (Some [smsItem], replicate n smsItem, [])"
  by (induction n) (simp_all add: processQueue_stuck)

text \<open>
  C6 (fails on the code). An \<open>emergency_sms\<close> item is enqueued while offline; the
  dispatch fails on every attempt. Four drains hand the item to the dispatch four times,
  report nothing as removed, and leave the item in the stored queue with retry count 0:
  the incremented count lives only in the in-memory copy, which is written back only
  when some item of the same drain was processed.
\<close>

theorem failed_item_retried_forever:
  "drains 4 neverSends stuckStorage
   = (Some [smsItem], [smsItem, smsItem, smsItem, smsItem], [])"
  by (simp add: stuckStorage_value drains_stuck numeral_eq_Suc)

lemma getQueue_Some: "getQueue (Some queue) = queue"
  by (simp add: getQueue_def)

lemma foldl_processItem_attempted:
  "attempted (foldl (\<lambda>dl item. processItem send item dl) dl0 queue)
   = attempted dl0 @ filter (\<lambda>item. item_type item = emergency_sms) queue"
  by (induction queue arbitrary: dl0)
     (simp_all add: processItem_def Let_def split: item_type.splits)

lemma foldl_processItem_ids:
  "map item_id (memoryQueue (foldl (\<lambda>dl item. processItem send item dl) dl0 queue))
   = map item_id (memoryQueue dl0) @ map item_id queue"
  by (induction queue arbitrary: dl0)
     (simp_all add: processItem_def Let_def split: item_type.splits)

lemma foldl_processItem_processed_mono:
  "set (processedIds dl0)
   \<subseteq> set (processedIds (foldl (\<lambda>dl item. processItem send item dl) dl0 queue))"
proof (induction queue arbitrary: dl0)
  case Nil
  then show ?case by simp
next
  case (Cons x xs)
  have "set (processedIds dl0) \<subseteq> set (processedIds (processItem send x dl0))"
    by (auto simp add: processItem_def Let_def split: item_type.splits)
  with Cons.IH [of "processItem send x dl0"] show ?case by auto
qed

lemma foldl_processItem_sent:
  assumes "item \<in> set queue" and "item_type item = emergency_sms" and "send item"
  shows "item_id item
         \<in> set (processedIds (foldl (\<lambda>dl item. processItem send item dl) dl0 queue))"
  using assms
proof (induction queue arbitrary: dl0)
  case Nil
  then show ?case by simp
next
  case (Cons x xs)
  show ?case
  proof (cases "x = item")
    case True
    with Cons.prems have "item_id item \<in> set (processedIds (processItem send x dl0))"
      by (simp add: processItem_def)
    with foldl_processItem_processed_mono [of "processItem send x dl0" send xs]
    show ?thesis by auto
  next
    case False
    with Cons.prems have "item \<in> set xs" by simp
    from Cons.IH [OF this Cons.prems(2,3)] show ?thesis by simp
  qed
qed

text \<open>An item of type \<open>emergency_sms\<close> enqueued while offline is handed to the
  dispatch by the next drain that runs online.\<close>

lemma enqueued_item_attempted:
  assumes "addToQueue newId now emergency_sms dat storage = (storage', i)"
  shows "\<lparr>item_id = newId, item_type = emergency_sms, item_data = dat,
           item_timestamp = now, retryCount = 0\<rparr>
         \<in> set (attempted (snd (processQueue True send storage')))"
  using assms
  by (auto simp add: addToQueue_def processQueue_def processItems_def Let_def
      foldl_processItem_attempted emptyLog_def getQueue_Some)

text \<open>An item whose dispatch succeeds during a drain has no entry with its id in the
  storage the drain leaves, so no later drain reads it.\<close>

lemma sent_item_removed:
  assumes "item \<in> set (getQueue storage)" and "item_type item = emergency_sms"
    and "send item"
  shows "item_id item \<notin> item_id ` set (getQueue (fst (processQueue True send storage)))"
proof -
  let ?dl = "processItems send (getQueue storage)"
  from assms have p: "item_id item \<in> set (processedIds ?dl)"
    unfolding processItems_def by (rule foldl_processItem_sent)
  then have "length (processedIds ?dl) > 0" by (cases "processedIds ?dl") auto
  moreover from assms(1) have "length (getQueue storage) \<noteq> 0" by auto
  ultimately have "getQueue (fst (processQueue True send storage))
      = filter (\<lambda>x. item_id x \<notin> set (processedIds ?dl)) (memoryQueue ?dl)"
    by (simp add: processQueue_def Let_def getQueue_Some)
  with p show ?thesis by auto
qed

end
